theory Spec2Isabelle
  imports Complex_Main "HOL-Library.Word" "HOL-Library.Multiset" "HOL-Library.Product_Lexorder"
    "HOL-Library.Char_ord" "HOL-Library.List_Lexorder"
begin

section \<open>Values and errors\<close>

text \<open>
  The pipeline is written against pandas and numpy. A floating-point cell is modelled as
  \<open>real option\<close>: \<open>None\<close> is NaN (the missing value), \<open>Some v\<close> a number, with exact
  arithmetic in place of rounding. Exceptions of the Python code are values of \<open>py_error\<close>.
\<close>

type_synonym cell = "real option"

datatype py_error = ValueError | KeyError | IndexError | TypeError | ZeroDivisionError

section \<open>RankTransformer\<close>

text \<open>
  \<^verbatim>\<open>sub_rank = sub_df.rank(axis=0, method="first", ascending=False, na_option="bottom")\<close>
  ranks every column of the frame on its own. Within a column pandas sorts the row positions
  with a stable sort, numbers first and NaN last, larger numbers first, and hands out
  1, 2, ... in that order (\<open>out[sort_indexer[j]] = j + 1\<close>). \<open>rank_key\<close> is the sort key
  of one cell, \<open>rank_order\<close> the sorted row positions, \<open>assign_ranks\<close> the assignment loop.
\<close>

definition rank_key :: "cell \<Rightarrow> bool \<times> real" where
  "rank_key c = (case c of None \<Rightarrow> (True, 0) | Some v \<Rightarrow> (False, - v))"

definition rank_order :: "cell list \<Rightarrow> nat list" where
  "rank_order col = sort_key (\<lambda>i. rank_key (col ! i)) [0..<length col]"

fun assign_ranks :: "nat list \<Rightarrow> nat \<Rightarrow> nat list \<Rightarrow> nat list" where
  "assign_ranks [] k out = out"
| "assign_ranks (i # rest) k out = assign_ranks rest (Suc k) (out[i := Suc k])"

definition rank_first :: "cell list \<Rightarrow> nat list" where
  "rank_first col = assign_ranks (rank_order col) 0 (replicate (length col) 0)"

text \<open>
  \<^verbatim>\<open>sub_rank.astype("int32")\<close>: the ranks, whole numbers held in floats, are stored as
  32-bit signed integers. The cast keeps the value of every rank below \<open>2 ^ 31\<close>.
\<close>

definition astype_int32 :: "nat \<Rightarrow> 32 word" where
  "astype_int32 r = of_nat r"

definition rank_column :: "cell list \<Rightarrow> 32 word list" where
  "rank_column col = map astype_int32 (rank_first col)"

text \<open>A frame in the ranking stage is its list of labelled experiment columns.\<close>

type_synonym 'l columns = "('l \<times> cell list) list"
type_synonym 'l ranked = "('l \<times> 32 word list) list"

definition rank_frame :: "'l columns \<Rightarrow> 'l ranked" where
  "rank_frame cols = map (\<lambda>(label, col). (label, rank_column col)) cols"

text \<open>\<^verbatim>\<open>transposed.iloc[:, start:end]\<close> for \<open>0 \<le> start \<le> end\<close>.\<close>

definition iloc_cols :: "nat \<Rightarrow> nat \<Rightarrow> 'a list \<Rightarrow> 'a list" where
  "iloc_cols start stop cols = take (stop - start) (drop start cols)"

text \<open>
  The chunk loop
  \<^verbatim>\<open>
  for start in range(0, len(cols), rank_chunk_size):
      end = min(start + rank_chunk_size, len(cols))
      sub_df = transposed.iloc[:, start:end]
      sub_rank = sub_df.rank(...)
      ranked_chunks.append(sub_rank.astype("int32"))
  \<close>
  for a positive step; \<open>rank_chunks\<close> returns \<open>ranked_chunks\<close>.
\<close>

function rank_chunks :: "nat \<Rightarrow> nat \<Rightarrow> 'l columns \<Rightarrow> 'l ranked list" where
  "rank_chunks chunk start cols =
     (if chunk = 0 \<or> length cols \<le> start then []
      else (let stop = min (start + chunk) (length cols)
            in rank_frame (iloc_cols start stop cols) # rank_chunks chunk (start + chunk) cols))"
  by pat_completeness auto
termination
  by (relation "measure (\<lambda>(chunk, start, cols). length cols - start)") auto

declare rank_chunks.simps [simp del]

text \<open>
  \<^verbatim>\<open>pd.concat(ranked_chunks, axis=1)\<close> raises ValueError ("No objects to concatenate")
  on an empty list; the chunks share one index, so the result is their columns in order.
\<close>

definition pd_concat_axis1 :: "'a list list \<Rightarrow> py_error + 'a list" where
  "pd_concat_axis1 chunks = (if chunks = [] then Inl ValueError else Inr (concat chunks))"

text \<open>
  The ranking step of \<^verbatim>\<open>main\<close> in extract_OG_tahoe_part_2_rank_and_save_parquet.py.
  \<^verbatim>\<open>n_chunks = (len(cols) + rank_chunk_size - 1) // rank_chunk_size\<close> divides by the
  chunk size first; a negative step makes the range empty, so nothing is appended.
\<close>

definition rank_genes :: "int \<Rightarrow> 'l columns \<Rightarrow> py_error + 'l ranked" where
  "rank_genes rank_chunk_size cols =
     (if rank_chunk_size = 0 then Inl ZeroDivisionError
      else if rank_chunk_size < 0 then pd_concat_axis1 []
      else pd_concat_axis1 (rank_chunks (nat rank_chunk_size) 0 cols))"

text \<open>
  Step 4 of filter_tahoe_part2_ranking.py is the same loop with the constant
  \<^verbatim>\<open>CHUNK_SIZE = 512\<close>.
\<close>

definition CHUNK_SIZE :: nat where
  "CHUNK_SIZE = 512"

definition rank_genes_2a :: "'l columns \<Rightarrow> py_error + 'l ranked" where
  "rank_genes_2a cols = pd_concat_axis1 (rank_chunks CHUNK_SIZE 0 cols)"

text \<open>
  The reference the chunked loop is compared with: one call of \<open>rank\<close> on the whole frame,
  every experiment column ranked in a single pass.
\<close>

definition rank_single_pass :: "'l columns \<Rightarrow> 'l ranked" where
  "rank_single_pass cols = rank_frame cols"

text \<open>
  Row \<open>i\<close> is ranked before row \<open>j\<close>: a number before NaN, the larger number first, and on a
  tie (equal numbers, or both NaN) the earlier row first.
\<close>

definition ranks_before :: "cell list \<Rightarrow> nat \<Rightarrow> nat \<Rightarrow> bool" where
  "ranks_before col i j =
     (rank_key (col ! i) < rank_key (col ! j) \<or> (rank_key (col ! i) = rank_key (col ! j) \<and> i < j))"

section \<open>ReplicateConsistencyValidator\<close>

text \<open>
  generate_valid_instances.py. The signature matrix \<^verbatim>\<open>sig_matrix\<close> is a frame of
  numbers (the stored rank matrices): its gene index and its instance columns, labelled by
  instance id. Column labels and the instance ids of the metadata are taken to be unique,
  as \<^verbatim>\<open>main\<close> selects them through a set. The metadata is the list of its rows
  \<open>(id, name)\<close>; a missing name is \<open>None\<close>.
\<close>

type_synonym vec = "real list"

record sig_matrix =
  sig_index :: "int list"
  sig_columns :: "(string \<times> vec) list"

type_synonym metadata = "(string \<times> string option) list"

record result_row =
  inst_id :: string
  drug_name :: string
  r_value :: cell
  p_value :: cell
  num_peers :: nat

record verdict_row = result_row +
  valid :: nat

text \<open>
  \<^verbatim>\<open>metadata.groupby(drug_col_name)\<close> iterates over the distinct names in sorted order
  (rows without a name belong to no group); the group keeps the metadata's row order.
\<close>

definition group_names :: "metadata \<Rightarrow> string list" where
  "group_names meta = sort (remdups (concat (map (\<lambda>(i, name). case name of None \<Rightarrow> [] | Some d \<Rightarrow> [d]) meta)))"

definition group_instance_ids :: "metadata \<Rightarrow> string \<Rightarrow> string list" where
  "group_instance_ids meta d = map fst (filter (\<lambda>(i, name). name = Some d) meta)"

definition in_columns :: "sig_matrix \<Rightarrow> string \<Rightarrow> bool" where
  "in_columns sig pid = (pid \<in> set (map fst (sig_columns sig)))"

text \<open>\<^verbatim>\<open>sig_matrix[pid]\<close> for a label that is present.\<close>

definition column_of :: "sig_matrix \<Rightarrow> string \<Rightarrow> vec" where
  "column_of sig pid = (case map_of (sig_columns sig) pid of Some v \<Rightarrow> v | None \<Rightarrow> [])"

text \<open>\<^verbatim>\<open>drug_sig_matrix.sum(axis=1)\<close>: for every gene row, the sum over the columns.\<close>

definition sum_axis1 :: "nat \<Rightarrow> vec list \<Rightarrow> vec" where
  "sum_axis1 n_genes vs = map (\<lambda>g. sum_list (map (\<lambda>v. v ! g) vs)) [0..<n_genes]"

text \<open>
  \<^verbatim>\<open>
  peer_sum_vector = total_sum_vector - current_instance_sig
  peer_consensus = peer_sum_vector / (num_instances - 1)
  \<close>
\<close>

definition peer_sum_vector :: "vec \<Rightarrow> vec \<Rightarrow> vec" where
  "peer_sum_vector total_sum_vector current_instance_sig =
     map2 (-) total_sum_vector current_instance_sig"

definition peer_consensus :: "vec \<Rightarrow> vec \<Rightarrow> nat \<Rightarrow> vec" where
  "peer_consensus total_sum_vector current_instance_sig num_instances =
     map (\<lambda>x. x / real (num_instances - 1))
       (peer_sum_vector total_sum_vector current_instance_sig)"

text \<open>
  \<^verbatim>\<open>scipy.stats.pearsonr\<close> is a parameter of the model: on two vectors it either raises
  ValueError or returns \<open>(r, p)\<close>, where \<open>r\<close> is NaN for a constant input. The code turns
  both a NaN \<open>r\<close> and the ValueError into \<open>r = 0, p = 1\<close>.
\<close>

datatype pearson_result = PearsonValueError | PearsonResult cell cell

definition loo_score :: "(vec \<Rightarrow> vec \<Rightarrow> pearson_result) \<Rightarrow> vec \<Rightarrow> vec \<Rightarrow> cell \<times> cell" where
  "loo_score pearsonr current_instance_sig consensus =
     (case pearsonr current_instance_sig consensus of
        PearsonValueError \<Rightarrow> (Some 0, Some 1)
      | PearsonResult None p \<Rightarrow> (Some 0, Some 1)
      | PearsonResult (Some r) p \<Rightarrow> (Some r, p))"

text \<open>The body of the loop over the drug groups: the rows appended for one group.\<close>

definition group_results ::
  "(vec \<Rightarrow> vec \<Rightarrow> pearson_result) \<Rightarrow> sig_matrix \<Rightarrow> string \<Rightarrow> string list \<Rightarrow> result_row list" where
  "group_results pearsonr sig drug instance_ids =
     (let valid_matrix_ids = filter (in_columns sig) instance_ids;
          num_instances = length valid_matrix_ids
      in if num_instances \<le> 1
         then map (\<lambda>inst. \<lparr>inst_id = inst, drug_name = drug, r_value = None, p_value = None,
                          num_peers = 0\<rparr>) instance_ids
         else (let drug_sig_matrix = map (column_of sig) valid_matrix_ids;
                   total_sum_vector = sum_axis1 (length (sig_index sig)) drug_sig_matrix
               in map (\<lambda>inst.
                    (let current_instance_sig = column_of sig inst;
                         rp = loo_score pearsonr current_instance_sig
                                (peer_consensus total_sum_vector current_instance_sig num_instances)
                     in \<lparr>inst_id = inst, drug_name = drug, r_value = fst rp, p_value = snd rp,
                         num_peers = num_instances - 1\<rparr>)) valid_matrix_ids))"

definition calculate_raw_stats ::
  "(vec \<Rightarrow> vec \<Rightarrow> pearson_result) \<Rightarrow> sig_matrix \<Rightarrow> metadata \<Rightarrow> result_row list" where
  "calculate_raw_stats pearsonr sig meta =
     concat (map (\<lambda>d. group_results pearsonr sig d (group_instance_ids meta d)) (group_names meta))"

text \<open>
  \<^verbatim>\<open>np.nanpercentile(a, q)\<close> with the default linear interpolation: ValueError unless
  \<open>0 \<le> q \<le> 100\<close>; NaN entries are left out; NaN when nothing is left.
\<close>

definition np_nanpercentile :: "cell list \<Rightarrow> real \<Rightarrow> py_error + cell" where
  "np_nanpercentile a q =
     (if q < 0 \<or> 100 < q then Inl ValueError
      else (let xs = sort (concat (map (\<lambda>c. case c of None \<Rightarrow> [] | Some v \<Rightarrow> [v]) a));
                n = length xs
            in if n = 0 then Inr None
               else (let h = q / 100 * real (n - 1);
                         lo = nat \<lfloor>h\<rfloor>;
                         hi = min (lo + 1) (n - 1)
                     in Inr (Some (xs ! lo + (h - real lo) * (xs ! hi - xs ! lo))))))"

text \<open>Comparisons of a cell with a number; every comparison with NaN is false.\<close>

definition cell_lt :: "cell \<Rightarrow> real \<Rightarrow> bool" where
  "cell_lt c t = (case c of None \<Rightarrow> False | Some v \<Rightarrow> v < t)"

definition cell_gt :: "cell \<Rightarrow> real \<Rightarrow> bool" where
  "cell_gt c t = (case c of None \<Rightarrow> False | Some v \<Rightarrow> t < v)"

definition cell_ge :: "cell \<Rightarrow> cell \<Rightarrow> bool" where
  "cell_ge c t = (case (c, t) of (Some v, Some w) \<Rightarrow> w \<le> v | _ \<Rightarrow> False)"

text \<open>\<^verbatim>\<open>results_df['valid'] = 0\<close>, then \<^verbatim>\<open>results_df.loc[valid_stats_mask & mask, 'valid'] = 1\<close>.\<close>

definition set_valid :: "(result_row \<Rightarrow> bool) \<Rightarrow> result_row list \<Rightarrow> verdict_row list" where
  "set_valid row_mask results_df =
     map (\<lambda>row. \<lparr>inst_id = inst_id row, drug_name = drug_name row, r_value = r_value row,
                  p_value = p_value row, num_peers = num_peers row,
                  valid = (if r_value row \<noteq> None \<and> row_mask row then 1 else 0)\<rparr>)
       results_df"

text \<open>
  \<^verbatim>\<open>apply_filters(results_df, mode, threshold)\<close>, on the frame \<^verbatim>\<open>pd.DataFrame(results)\<close>
  built by \<open>calculate_raw_stats\<close>. Built from an empty list the frame has no columns, and
  \<^verbatim>\<open>results_df['r']\<close> raises KeyError. An unknown mode leaves every row at 0.
\<close>

definition apply_filters :: "result_row list \<Rightarrow> string \<Rightarrow> real \<Rightarrow> py_error + verdict_row list" where
  "apply_filters results_df mode threshold =
     (if results_df = [] then Inl KeyError
      else if mode = ''pvalue''
      then Inr (set_valid (\<lambda>row. cell_lt (p_value row) threshold \<and> cell_gt (r_value row) 0) results_df)
      else if mode = ''rvalue''
      then Inr (set_valid (\<lambda>row. cell_gt (r_value row) threshold) results_df)
      else if mode = ''percentile''
      then (let rankable = filter (\<lambda>row. r_value row \<noteq> None) results_df
            in if rankable = [] then Inr (set_valid (\<lambda>row. False) results_df)
               else (let percentile_cutoff = 100 - threshold
                     in case np_nanpercentile (map r_value rankable) percentile_cutoff of
                          Inl e \<Rightarrow> Inl e
                        | Inr r_cutoff \<Rightarrow>
                            Inr (set_valid (\<lambda>row. cell_ge (r_value row) r_cutoff
                                                 \<and> cell_gt (r_value row) 0) results_df)))
      else Inr (set_valid (\<lambda>row. False) results_df))"

text \<open>\<^verbatim>\<open>valid = results_df['valid'].sum()\<close> of \<open>generate_summary\<close>: the number of rows marked valid.\<close>

definition count_valid :: "verdict_row list \<Rightarrow> nat" where
  "count_valid results_df = sum_list (map valid results_df)"

text \<open>
  The mean of the other members of a replicate group, written from the specification's words: for
  member \<open>i\<close> of the group \<open>vs\<close>, gene by gene, the sum over all members but \<open>i\<close> divided by
  their number.
\<close>

definition mean_of_others :: "nat \<Rightarrow> vec list \<Rightarrow> nat \<Rightarrow> vec" where
  "mean_of_others n_genes vs i =
     map (\<lambda>g. sum_list (map (\<lambda>j. vs ! j ! g) (filter (\<lambda>j. j \<noteq> i) [0..<length vs]))
               / real (length vs - 1)) [0..<n_genes]"

section \<open>GeneIdentifierHarmonizer\<close>

text \<open>
  A cell of an \<^verbatim>\<open>entrezID\<close> column as read from the mapping file: missing (NaN), a value
  that \<^verbatim>\<open>pd.to_numeric\<close> reads as a number, or any other text.
\<close>

datatype entrez_cell = NaN_id | Num real | Text string

text \<open>The rows \<open>(gene name, entrezID)\<close> of a mapping file; a missing name is \<open>None\<close>.\<close>

type_synonym gene_table = "(string option \<times> entrez_cell) list"

text \<open>\<^verbatim>\<open>dict(zip(keys, values))\<close>: pairs are stored in order, a later pair replaces an earlier one with the same key.\<close>

definition dict_zip :: "('k \<times> 'v) list \<Rightarrow> ('k \<rightharpoonup> 'v)" where
  "dict_zip kvs = fold (\<lambda>(k, v) m. m(k \<mapsto> v)) kvs Map.empty"

text \<open>\<^verbatim>\<open>df.drop_duplicates(subset=[key])\<close>: of the rows with the same key the first is kept.\<close>

fun drop_duplicates :: "('row \<Rightarrow> 'k) \<Rightarrow> 'k list \<Rightarrow> 'row list \<Rightarrow> 'row list" where
  "drop_duplicates key seen [] = []"
| "drop_duplicates key seen (row # rest) =
     (if key row \<in> set seen then drop_duplicates key seen rest
      else row # drop_duplicates key (key row # seen) rest)"

text \<open>
  The gene map of extract_OG_tahoe_part_2_rank_and_save_parquet.py:
  \<^verbatim>\<open>
  gene_map = gene_map.dropna(subset=['Gene_name', 'entrezID'])
  gene_map = gene_map.drop_duplicates(subset=['Gene_name'])
  gene_name_to_entrez = dict(zip(gene_map["Gene_name"], gene_map["entrezID"]))
  \<close>
\<close>

definition dropna_gene_map :: "gene_table \<Rightarrow> gene_table" where
  "dropna_gene_map gene_map = filter (\<lambda>(name, e). name \<noteq> None \<and> e \<noteq> NaN_id) gene_map"

definition gene_name_to_entrez :: "gene_table \<Rightarrow> (string option \<rightharpoonup> entrez_cell)" where
  "gene_name_to_entrez gene_map = dict_zip (drop_duplicates fst [] (dropna_gene_map gene_map))"

text \<open>
  The gene map and the shared id set of filter_tahoe_part2_ranking.py, both read from the
  shared-genes file:
  \<^verbatim>\<open>
  gene_name_to_entrez = dict(zip(shared_genes_df["gene_name"], shared_genes_df["entrezID"]))
  shared_entrez_ids = set(pd.to_numeric(shared_genes_df["entrezID"], errors="coerce")
                            .dropna().astype(int).tolist())
  \<close>
  \<^verbatim>\<open>astype(int)\<close> drops the fraction of a number.
\<close>

definition gene_name_to_entrez_2a :: "gene_table \<Rightarrow> (string option \<rightharpoonup> entrez_cell)" where
  "gene_name_to_entrez_2a shared_genes_df = dict_zip shared_genes_df"

definition astype_int :: "real \<Rightarrow> int" where
  "astype_int x = (if 0 \<le> x then \<lfloor>x\<rfloor> else \<lceil>x\<rceil>)"

definition shared_entrez_ids :: "gene_table \<Rightarrow> int set" where
  "shared_entrez_ids shared_genes_df =
     set (concat (map (\<lambda>(name, e). case e of Num x \<Rightarrow> [astype_int x] | _ \<Rightarrow> []) shared_genes_df))"

text \<open>
  The frame \<^verbatim>\<open>transposed\<close>: its experiment columns and its rows, a row being its index
  label and its cells, one per experiment.
\<close>

record 'k frame =
  frame_columns :: "int list"
  frame_rows :: "('k \<times> cell list) list"

text \<open>
  \<^verbatim>\<open>
  transposed["entrezID"] = transposed.index.map(gene_name_to_entrez)
  transposed = transposed.dropna(subset=["entrezID"])
  \<close>
  A symbol that is no key of the dictionary is mapped to NaN.
\<close>

definition map_entrez :: "(string option \<rightharpoonup> entrez_cell) \<Rightarrow> (string \<times> cell list) list
    \<Rightarrow> (entrez_cell \<times> cell list) list" where
  "map_entrez gene_map rows =
     map (\<lambda>(symbol, cells). (case gene_map (Some symbol) of None \<Rightarrow> NaN_id | Some e \<Rightarrow> e, cells)) rows"

definition dropna_entrez :: "(entrez_cell \<times> cell list) list \<Rightarrow> (entrez_cell \<times> cell list) list" where
  "dropna_entrez rows = filter (\<lambda>(e, cells). e \<noteq> NaN_id) rows"

text \<open>
  \<^verbatim>\<open>
  transposed["entrezID"] = pd.to_numeric(transposed["entrezID"], errors="coerce").astype("Int64")
  transposed = transposed.dropna(subset=["entrezID"])
  transposed["entrezID"] = transposed["entrezID"].astype(int)
  \<close>
  Text becomes NaN and its row is dropped; the cast to \<^verbatim>\<open>Int64\<close> raises TypeError when a
  number is not whole.
\<close>

definition coerce_entrez :: "(entrez_cell \<times> cell list) list \<Rightarrow> py_error + (int \<times> cell list) list" where
  "coerce_entrez rows =
     (if list_ex (\<lambda>(e, cells). case e of Num x \<Rightarrow> real_of_int \<lfloor>x\<rfloor> \<noteq> x | _ \<Rightarrow> False) rows
      then Inl TypeError
      else Inr (concat (map (\<lambda>(e, cells). case e of Num x \<Rightarrow> [(\<lfloor>x\<rfloor>, cells)] | _ \<Rightarrow> []) rows)))"

text \<open>
  \<^verbatim>\<open>transposed.groupby("entrezID").mean(numeric_only=True)\<close>: one row per distinct id, in
  ascending order of the ids; pandas leaves NaN out of a mean (\<open>skipna\<close>) and returns NaN
  when nothing is left.
\<close>

definition nanmean :: "cell list \<Rightarrow> cell" where
  "nanmean cells =
     (let vs = concat (map (\<lambda>c. case c of None \<Rightarrow> [] | Some v \<Rightarrow> [v]) cells)
      in if vs = [] then None else Some (sum_list vs / real (length vs)))"

definition group_members :: "int \<Rightarrow> (int \<times> cell list) list \<Rightarrow> cell list list" where
  "group_members k rows = map snd (filter (\<lambda>(k', cells). k' = k) rows)"

definition groupby_mean :: "nat \<Rightarrow> (int \<times> cell list) list \<Rightarrow> (int \<times> cell list) list" where
  "groupby_mean n_cols rows =
     map (\<lambda>k. (k, map (\<lambda>j. nanmean (map (\<lambda>cells. cells ! j) (group_members k rows))) [0..<n_cols]))
       (sort (remdups (map fst rows)))"

text \<open>
  The harmonizing steps of \<^verbatim>\<open>main\<close> in extract_OG_tahoe_part_2_rank_and_save_parquet.py.
  The log line \<^verbatim>\<open>100*n_after/n_before\<close> divides by the number of rows of the frame.
\<close>

definition harmonize :: "(string option \<rightharpoonup> entrez_cell) \<Rightarrow> string frame \<Rightarrow> py_error + int frame" where
  "harmonize gene_map transposed =
     (if frame_rows transposed = [] then Inl ZeroDivisionError
      else case coerce_entrez (dropna_entrez (map_entrez gene_map (frame_rows transposed))) of
             Inl e \<Rightarrow> Inl e
           | Inr rows \<Rightarrow>
               Inr \<lparr>frame_columns = frame_columns transposed,
                    frame_rows = groupby_mean (length (frame_columns transposed)) rows\<rparr>)"

text \<open>
  Step 3 of filter_tahoe_part2_ranking.py: the same steps without the log line, then
  \<^verbatim>\<open>transposed = transposed.loc[transposed.index.intersection(shared_entrez_ids)]\<close>,
  which keeps the rows whose id is in the shared set, in the order of the index.
\<close>

definition harmonize_2a :: "(string option \<rightharpoonup> entrez_cell) \<Rightarrow> int set \<Rightarrow> string frame
    \<Rightarrow> py_error + int frame" where
  "harmonize_2a gene_map shared_ids transposed =
     (case coerce_entrez (dropna_entrez (map_entrez gene_map (frame_rows transposed))) of
        Inl e \<Rightarrow> Inl e
      | Inr rows \<Rightarrow>
          Inr \<lparr>frame_columns = frame_columns transposed,
               frame_rows = filter (\<lambda>(k, cells). k \<in> shared_ids)
                              (groupby_mean (length (frame_columns transposed)) rows)\<rparr>)"

definition part_2a_step_3 :: "gene_table \<Rightarrow> string frame \<Rightarrow> py_error + int frame" where
  "part_2a_step_3 shared_genes_df transposed =
     harmonize_2a (gene_name_to_entrez_2a shared_genes_df) (shared_entrez_ids shared_genes_df) transposed"

text \<open>The experiment columns of a frame, as the ranking stage takes them.\<close>

definition columns_of :: "'k frame \<Rightarrow> int columns" where
  "columns_of fr =
     map (\<lambda>j. (frame_columns fr ! j, map (\<lambda>(k, cells). cells ! j) (frame_rows fr)))
       [0..<length (frame_columns fr)]"

text \<open>
  The arithmetic mean of all cells of a list, written from the specification's words: the sum of
  all members divided by their number, NaN as soon as one member is NaN (as floating-point
  addition has it).
\<close>

definition mean_all :: "cell list \<Rightarrow> cell" where
  "mean_all cells =
     (if None \<in> set cells then None
      else Some (sum_list (map the cells) / real (length cells)))"

definition groupby_mean_all :: "nat \<Rightarrow> (int \<times> cell list) list \<Rightarrow> (int \<times> cell list) list" where
  "groupby_mean_all n_cols rows =
     map (\<lambda>k. (k, map (\<lambda>j. mean_all (map (\<lambda>cells. cells ! j) (group_members k rows))) [0..<n_cols]))
       (sort (remdups (map fst rows)))"

section \<open>ColumnSelector\<close>

text \<open>
  extract_OG_tahoe_part_1.py. \<^verbatim>\<open>np.argsort(a)\<close> returns the positions of \<open>a\<close> in ascending
  order of their values; it is modelled by a stable sort (numpy leaves the order of equal
  values open).
\<close>

definition np_argsort :: "int list \<Rightarrow> nat list" where
  "np_argsort a = sort_key (\<lambda>i. a ! i) [0..<length a]"

text \<open>\<^verbatim>\<open>a[idx]\<close> for an index array \<open>idx\<close> of positions of \<open>a\<close>.\<close>

definition fancy_index :: "'a list \<Rightarrow> nat list \<Rightarrow> 'a list" where
  "fancy_index a idx = map (\<lambda>i. a ! i) idx"

text \<open>
  \<^verbatim>\<open>np.take(block, idx, axis=1)\<close> and \<^verbatim>\<open>block[:, idx]\<close> on a block with \<open>n_cols\<close>
  columns: an index from \<open>-n_cols\<close> to \<open>n_cols - 1\<close> selects a column, a negative one counting
  from the end; any other index raises IndexError.
\<close>

definition np_take_axis1 :: "nat \<Rightarrow> 'a list list \<Rightarrow> int list \<Rightarrow> py_error + 'a list list" where
  "np_take_axis1 n_cols block idx =
     (if list_all (\<lambda>j. - int n_cols \<le> j \<and> j < int n_cols) idx
      then Inr (map (\<lambda>row. map (\<lambda>j. row ! nat (if j < 0 then j + int n_cols else j)) idx) block)
      else Inl IndexError)"

text \<open>
  The column selection of \<^verbatim>\<open>part1_h5_to_parquet\<close> and \<^verbatim>\<open>process_h5_chunk\<close>:
  \<^verbatim>\<open>
  col_order = np.argsort(col_idx_keep_arr)
  col_sorted = col_idx_keep_arr[col_order]
  col_unsort = np.argsort(col_order)
  block_cols_sorted = np.take(block_full, col_sorted, axis=1)
  block_cols = block_cols_sorted[:, col_unsort]
  \<close>
  \<open>unsort_columns\<close> is the worker's part, for any \<open>col_order\<close>.
\<close>

definition unsort_columns :: "nat \<Rightarrow> 'a list list \<Rightarrow> int list \<Rightarrow> nat list \<Rightarrow> py_error + 'a list list" where
  "unsort_columns n_cols block_full col_idx_keep col_order =
     (let col_sorted = fancy_index col_idx_keep col_order;
          col_unsort = np_argsort (map int col_order)
      in case np_take_axis1 n_cols block_full col_sorted of
           Inl e \<Rightarrow> Inl e
         | Inr block_cols_sorted \<Rightarrow>
             np_take_axis1 (length col_sorted) block_cols_sorted (map int col_unsort))"

definition select_columns :: "nat \<Rightarrow> 'a list list \<Rightarrow> int list \<Rightarrow> py_error + 'a list list" where
  "select_columns n_cols block_full col_idx_keep =
     unsort_columns n_cols block_full col_idx_keep (np_argsort col_idx_keep)"

section \<open>The two ranking scripts as a whole\<close>

text \<open>
  \<^verbatim>\<open>main\<close> of extract_OG_tahoe_part_2_rank_and_save_parquet.py from the transposed frame
  on: harmonize, then rank the experiment columns in chunks. The ranked matrix keeps the
  canonical ids as its index.
\<close>

definition part_2_main :: "gene_table \<Rightarrow> int \<Rightarrow> string frame \<Rightarrow> py_error + (int list \<times> int ranked)" where
  "part_2_main gene_map rank_chunk_size transposed =
     (case harmonize (gene_name_to_entrez gene_map) transposed of
        Inl e \<Rightarrow> Inl e
      | Inr collapsed \<Rightarrow>
          (case rank_genes rank_chunk_size (columns_of collapsed) of
             Inl e \<Rightarrow> Inl e
           | Inr ranked_matrix \<Rightarrow> Inr (map fst (frame_rows collapsed), ranked_matrix)))"

text \<open>Steps 3 and 4 of filter_tahoe_part2_ranking.py.\<close>

definition part_2a :: "gene_table \<Rightarrow> string frame \<Rightarrow> py_error + (int list \<times> int ranked)" where
  "part_2a shared_genes_df transposed =
     (case part_2a_step_3 shared_genes_df transposed of
        Inl e \<Rightarrow> Inl e
      | Inr collapsed \<Rightarrow>
          (case rank_genes_2a (columns_of collapsed) of
             Inl e \<Rightarrow> Inl e
           | Inr ranked_genes_x_exper \<Rightarrow> Inr (map fst (frame_rows collapsed), ranked_genes_x_exper)))"

section \<open>Properties of the rank transform\<close>

lemma insort_key_stable_wrt:
  fixes f :: "nat \<Rightarrow> 'k::linorder"
  assumes "sorted_wrt (\<lambda>a b. f a < f b \<or> (f a = f b \<and> a < b)) ys"
    and "\<forall>y\<in>set ys. x < y"
  shows "sorted_wrt (\<lambda>a b. f a < f b \<or> (f a = f b \<and> a < b)) (insort_key f x ys)"
  using assms
proof (induction ys)
  case Nil
  then show ?case by simp
next
  case (Cons y ys)
  show ?case
  proof (cases "f x \<le> f y")
    case True
    have "\<forall>z\<in>set (y # ys). f x < f z \<or> (f x = f z \<and> x < z)"
    proof
      fix z assume z: "z \<in> set (y # ys)"
      have "f y \<le> f z" using Cons.prems(1) z by auto
      with True have "f x \<le> f z" by simp
      moreover have "x < z" using Cons.prems(2) z by auto
      ultimately show "f x < f z \<or> (f x = f z \<and> x < z)" by auto
    qed
    with True Cons.prems(1) show ?thesis by simp
  next
    case False
    then have lt: "f y < f x" by simp
    have ih: "sorted_wrt (\<lambda>a b. f a < f b \<or> (f a = f b \<and> a < b)) (insort_key f x ys)"
      using Cons by simp
    have "\<forall>z\<in>set (insort_key f x ys). f y < f z \<or> (f y = f z \<and> y < z)"
      using lt Cons.prems(1) by (auto simp: set_insort_key)
    with False ih show ?thesis by simp
  qed
qed

lemma sort_key_stable_wrt:
  fixes f :: "nat \<Rightarrow> 'k::linorder"
  assumes "sorted_wrt (<) xs"
  shows "sorted_wrt (\<lambda>a b. f a < f b \<or> (f a = f b \<and> a < b)) (sort_key f xs)"
  using assms
proof (induction xs)
  case Nil
  then show ?case by simp
next
  case (Cons x xs)
  have "\<forall>y\<in>set (sort_key f xs). x < y" using Cons.prems by simp
  with Cons show ?case by (simp add: insort_key_stable_wrt)
qed

lemma length_assign_ranks: "length (assign_ranks ord k out) = length out"
  by (induction ord k out rule: assign_ranks.induct) simp_all

lemma assign_ranks_other:
  "i \<notin> set ord \<Longrightarrow> assign_ranks ord k out ! i = out ! i"
  by (induction ord k out rule: assign_ranks.induct) auto

lemma assign_ranks_nth:
  "distinct ord \<Longrightarrow> \<forall>i\<in>set ord. i < length out \<Longrightarrow> m < length ord \<Longrightarrow>
   assign_ranks ord k out ! (ord ! m) = Suc (k + m)"
proof (induction ord k out arbitrary: m rule: assign_ranks.induct)
  case (1 k out)
  then show ?case by simp
next
  case (2 i rest k out)
  show ?case
  proof (cases m)
    case 0
    then show ?thesis using 2 by (simp add: assign_ranks_other)
  next
    case (Suc m')
    then show ?thesis using 2 by simp
  qed
qed

lemma rank_order_props:
  "distinct (rank_order col)" "set (rank_order col) = {0..<length col}"
  "length (rank_order col) = length col"
  by (simp_all add: rank_order_def)

lemma rank_order_sorted:
  "sorted_wrt (ranks_before col) (rank_order col)"
proof -
  have "sorted_wrt (<) [0..<length col]" by (simp add: sorted_wrt_iff_nth_less)
  from sort_key_stable_wrt[OF this, of "\<lambda>i. rank_key (col ! i)"]
  show ?thesis unfolding rank_order_def ranks_before_def .
qed

lemma length_rank_first: "length (rank_first col) = length col"
  by (simp add: rank_first_def length_assign_ranks)

lemma rank_first_at_order:
  assumes "m < length col"
  shows "rank_first col ! (rank_order col ! m) = Suc m"
  using assign_ranks_nth[of "rank_order col" "replicate (length col) 0" m 0] assms
  by (simp add: rank_first_def rank_order_props)

lemma rank_first_position:
  assumes "i < length col"
  shows "\<exists>m<length col. rank_order col ! m = i \<and> rank_first col ! i = Suc m"
proof -
  have "i \<in> set (rank_order col)" using assms by (simp add: rank_order_props)
  then obtain m where m: "m < length (rank_order col)" "rank_order col ! m = i"
    by (auto simp: in_set_conv_nth)
  then show ?thesis using rank_first_at_order[of m col] by (auto simp: rank_order_props)
qed

lemma rank_first_mono:
  assumes "i < length col" "j < length col" "ranks_before col i j"
  shows "rank_first col ! i < rank_first col ! j"
proof -
  obtain a where a: "a < length col" "rank_order col ! a = i" "rank_first col ! i = Suc a"
    using rank_first_position[OF assms(1)] by auto
  obtain b where b: "b < length col" "rank_order col ! b = j" "rank_first col ! j = Suc b"
    using rank_first_position[OF assms(2)] by auto
  have ne: "i \<noteq> j" using assms(3) by (auto simp: ranks_before_def)
  have "\<not> b < a"
  proof
    assume "b < a"
    then have "ranks_before col j i"
      using rank_order_sorted[of col] a b
      by (auto simp: sorted_wrt_iff_nth_less rank_order_props)
    with assms(3) show False by (auto simp: ranks_before_def)
  qed
  moreover have "a \<noteq> b" using a b ne by auto
  ultimately show ?thesis using a b by simp
qed

lemma rank_first_perm: "mset (rank_first col) = mset [1..<Suc (length col)]"
proof -
  let ?n = "length col"
  have "map (\<lambda>i. rank_first col ! i) (rank_order col) = map Suc [0..<?n]"
    by (rule nth_equalityI) (simp_all add: rank_order_props rank_first_at_order)
  then have "mset (map (\<lambda>i. rank_first col ! i) (rank_order col)) = mset (map Suc [0..<?n])"
    by simp
  moreover have "mset (rank_order col) = mset [0..<?n]"
    by (simp add: rank_order_def mset_sort)
  ultimately have "mset (map (\<lambda>i. rank_first col ! i) [0..<?n]) = mset (map Suc [0..<?n])"
    by (metis mset_map)
  moreover have "map (\<lambda>i. rank_first col ! i) [0..<?n] = rank_first col"
    by (rule nth_equalityI) (simp_all add: length_rank_first)
  moreover have "map Suc [0..<?n] = [1..<Suc ?n]"
    by (simp add: map_Suc_upt)
  ultimately show ?thesis by simp
qed

lemma sint_astype_int32: "r < 2 ^ 31 \<Longrightarrow> sint (astype_int32 r) = int r"
  unfolding astype_int32_def
  by (simp add: signed_of_nat signed_take_bit_int_eq_self)

lemma ranks_before_total:
  "i \<noteq> j \<Longrightarrow> ranks_before col i j \<or> ranks_before col j i"
  by (auto simp: ranks_before_def)

lemma set_rank_first: "set (rank_first col) = {1..length col}"
proof -
  have "set (rank_first col) = set [1..<Suc (length col)]"
    using rank_first_perm[of col] by (metis set_mset_mset)
  then show ?thesis by auto
qed

lemma distinct_rank_first: "distinct (rank_first col)"
proof -
  have "distinct [1..<Suc (length col)]" by simp
  then show ?thesis using rank_first_perm[of col] by (metis distinct_upt mset_eq_imp_distinct_iff)
qed

lemma rank_first_bounds:
  assumes "i < length col"
  shows "1 \<le> rank_first col ! i \<and> rank_first col ! i \<le> length col"
proof -
  have "rank_first col ! i \<in> set (rank_first col)"
    using assms by (simp add: length_rank_first)
  then show ?thesis by (simp add: set_rank_first)
qed

lemma rank_column_nth:
  assumes "length col < 2 ^ 31" "i < length col"
  shows "sint (rank_column col ! i) = int (rank_first col ! i)"
proof -
  have "rank_first col ! i < 2 ^ 31" using rank_first_bounds[OF assms(2)] assms(1) by simp
  then show ?thesis using assms(2)
    by (simp add: rank_column_def length_rank_first sint_astype_int32)
qed

lemma rank_column_map:
  assumes "length col < 2 ^ 31"
  shows "map sint (rank_column col) = map int (rank_first col)"
proof (rule nth_equalityI)
  show "length (map sint (rank_column col)) = length (map int (rank_first col))"
    by (simp add: rank_column_def)
next
  fix i assume "i < length (map sint (rank_column col))"
  then have i: "i < length col" by (simp add: rank_column_def length_rank_first)
  then show "map sint (rank_column col) ! i = map int (rank_first col) ! i"
    using rank_column_nth[OF assms i] by (simp add: rank_column_def length_rank_first)
qed

lemma rank_first_one:
  assumes i: "i < length col" and none: "\<forall>j<length col. \<not> ranks_before col j i"
  shows "rank_first col ! i = 1"
proof -
  have "1 \<in> set (rank_first col)" using i by (simp add: set_rank_first)
  then obtain k where k: "k < length col" "rank_first col ! k = 1"
    by (auto simp: in_set_conv_nth length_rank_first)
  show ?thesis
  proof (cases "k = i")
    case True
    with k show ?thesis by simp
  next
    case False
    then have "ranks_before col i k" using ranks_before_total[of k i col] none k by auto
    then have "rank_first col ! i < 1" using rank_first_mono[OF i k(1)] k(2) by simp
    then show ?thesis using rank_first_bounds[OF i] by simp
  qed
qed

text \<open>
  Claim C1. For every experiment column (with fewer than \<open>2 ^ 31\<close> rows, so that the
  int32 cast keeps each rank): the ranks are pairwise different and are exactly
  \<open>1, \<dots>, G\<close> for \<open>G\<close> the number of rows; the largest effect size (its first
  occurrence) has rank 1; a larger effect size has the smaller rank; of two equal cells
  (equal numbers or both NaN) the earlier row has the smaller rank; every number is ranked
  before every NaN; and \<open>[0.5, -0.2, 3.0, NaN]\<close> is ranked \<open>[2, 3, 1, 4]\<close>.
\<close>

theorem rank_transform_column:
  fixes col :: "cell list"
  assumes len: "length col < 2 ^ 31"
  shows "length (rank_column col) = length col
    \<and> distinct (map sint (rank_column col))
    \<and> set (map sint (rank_column col)) = {1 .. int (length col)}
    \<and> (\<forall>i<length col. \<forall>a. col ! i = Some a
          \<and> (\<forall>j<length col. \<forall>b. col ! j = Some b \<longrightarrow> b \<le> a)
          \<and> (\<forall>j<i. col ! j \<noteq> Some a)
          \<longrightarrow> sint (rank_column col ! i) = 1)
    \<and> (\<forall>i<length col. \<forall>j<length col. \<forall>a b. col ! i = Some a \<and> col ! j = Some b \<and> b < a
          \<longrightarrow> sint (rank_column col ! i) < sint (rank_column col ! j))
    \<and> (\<forall>i j. i < j \<and> j < length col \<and> col ! i = col ! j
          \<longrightarrow> sint (rank_column col ! i) < sint (rank_column col ! j))
    \<and> (\<forall>i<length col. \<forall>j<length col. col ! i \<noteq> None \<and> col ! j = None
          \<longrightarrow> sint (rank_column col ! i) < sint (rank_column col ! j))
    \<and> map sint (rank_column [Some 0.5, Some (- 0.2), Some 3.0, None]) = [2, 3, 1, 4]"
proof -
  have c1: "length (rank_column col) = length col"
    by (simp add: rank_column_def length_rank_first)
  have c2: "distinct (map sint (rank_column col))"
    by (simp add: rank_column_map[OF len] distinct_map distinct_rank_first)
  have c3: "set (map sint (rank_column col)) = {1 .. int (length col)}"
  proof -
    have "set (map sint (rank_column col)) = int ` {1..length col}"
      by (simp add: rank_column_map[OF len] set_rank_first)
    also have "\<dots> = {1 .. int (length col)}"
      by (simp add: image_int_atLeastAtMost)
    finally show ?thesis .
  qed
  have lt: "sint (rank_column col ! i) < sint (rank_column col ! j)"
    if "i < length col" "j < length col" "ranks_before col i j" for i j
    using rank_first_mono[OF that] by (simp add: rank_column_nth[OF len] that)
  have c4: "\<forall>i<length col. \<forall>a. col ! i = Some a
          \<and> (\<forall>j<length col. \<forall>b. col ! j = Some b \<longrightarrow> b \<le> a)
          \<and> (\<forall>j<i. col ! j \<noteq> Some a)
          \<longrightarrow> sint (rank_column col ! i) = 1"
  proof (intro allI impI)
    fix i a
    assume i: "i < length col"
      and h: "col ! i = Some a \<and> (\<forall>j<length col. \<forall>b. col ! j = Some b \<longrightarrow> b \<le> a)
          \<and> (\<forall>j<i. col ! j \<noteq> Some a)"
    have "\<not> ranks_before col j i" if j: "j < length col" for j
    proof (cases "col ! j")
      case None
      with h show ?thesis by (simp add: ranks_before_def rank_key_def)
    next
      case (Some b)
      with h j have "b \<le> a" by blast
      moreover have "b = a \<Longrightarrow> \<not> j < i" using h Some by auto
      ultimately show ?thesis using h Some by (auto simp: ranks_before_def rank_key_def)
    qed
    then have "rank_first col ! i = 1" using rank_first_one[OF i] by blast
    then show "sint (rank_column col ! i) = 1" by (simp add: rank_column_nth[OF len i])
  qed
  have c5: "\<forall>i<length col. \<forall>j<length col. \<forall>a b. col ! i = Some a \<and> col ! j = Some b \<and> b < a
          \<longrightarrow> sint (rank_column col ! i) < sint (rank_column col ! j)"
    by (intro allI impI lt) (auto simp: ranks_before_def rank_key_def)
  have c6: "\<forall>i j. i < j \<and> j < length col \<and> col ! i = col ! j
          \<longrightarrow> sint (rank_column col ! i) < sint (rank_column col ! j)"
    by (intro allI impI lt) (auto simp: ranks_before_def)
  have c7: "\<forall>i<length col. \<forall>j<length col. col ! i \<noteq> None \<and> col ! j = None
          \<longrightarrow> sint (rank_column col ! i) < sint (rank_column col ! j)"
    by (intro allI impI lt) (auto simp: ranks_before_def rank_key_def)
  have c8: "map sint (rank_column [Some 0.5, Some (- 0.2), Some 3.0, None]) = [2, 3, 1, 4]"
    by code_simp
  from c1 c2 c3 c4 c5 c6 c7 c8 show ?thesis by blast
qed

theorem rank_transform_column_witness:
  "length [Some 1, None, Some 1, Some (- 2), None :: cell] < 2 ^ 31
   \<and> map sint (rank_column [Some 1, None, Some 1, Some (- 2), None]) = [1, 4, 2, 3, 5]
   \<and> set (map sint (rank_column [Some 1, None, Some 1, Some (- 2), None])) = {1 .. 5}"
proof -
  have l: "length [Some 1, None, Some 1, Some (- 2), None :: cell] < 2 ^ 31" by simp
  have e: "map sint (rank_column [Some 1, None, Some 1, Some (- 2), None]) = [1, 4, 2, 3, 5]"
    by code_simp
  show ?thesis using rank_transform_column[OF l] e l by simp
qed

section \<open>Chunked ranking\<close>

lemma rank_frame_append: "rank_frame (xs @ ys) = rank_frame xs @ rank_frame ys"
  by (simp add: rank_frame_def)

lemma concat_rank_chunks:
  "0 < chunk \<Longrightarrow> concat (rank_chunks chunk start cols) = rank_frame (drop start cols)"
proof (induction chunk start cols rule: rank_chunks.induct)
  case (1 chunk start cols)
  show ?case
  proof (cases "length cols \<le> start")
    case True
    then show ?thesis by (subst rank_chunks.simps) (simp add: rank_frame_def)
  next
    case False
    let ?stop = "min (start + chunk) (length cols)"
    have ih: "concat (rank_chunks chunk (start + chunk) cols) = rank_frame (drop (start + chunk) cols)"
      using "1.IH" "1.prems" False by simp
    have a: "iloc_cols start ?stop cols = take chunk (drop start cols)"
      using False by (simp add: iloc_cols_def min_def)
    have b: "drop (start + chunk) cols = drop chunk (drop start cols)"
      by (simp add: add.commute)
    have "concat (rank_chunks chunk start cols)
        = rank_frame (iloc_cols start ?stop cols) @ concat (rank_chunks chunk (start + chunk) cols)"
      using False "1.prems" by (subst rank_chunks.simps) (simp add: Let_def)
    also have "\<dots> = rank_frame (take chunk (drop start cols) @ drop chunk (drop start cols))"
      by (simp only: ih a b rank_frame_append)
    finally show ?thesis by (simp only: append_take_drop_id)
  qed
qed

lemma rank_chunks_nonempty:
  "0 < chunk \<Longrightarrow> start < length cols \<Longrightarrow> rank_chunks chunk start cols \<noteq> []"
  by (subst rank_chunks.simps) (simp add: Let_def)

lemma rank_chunks_single_pass:
  assumes "0 < chunk" "cols \<noteq> []"
  shows "pd_concat_axis1 (rank_chunks chunk 0 cols) = Inr (rank_single_pass cols)"
  using assms rank_chunks_nonempty[of chunk 0 cols] concat_rank_chunks[of chunk 0 cols]
  by (simp add: pd_concat_axis1_def rank_single_pass_def)

text \<open>
  Claim C5. For a frame with at least one experiment column and a positive chunk size, the
  chunked loop followed by the concatenation returns exactly the frame ranked in a single
  pass, in both scripts, and each column of that result is the rank of the same input
  column alone: chunk boundaries do not change any column. A frame without experiment
  columns leaves nothing to concatenate and the chunked code raises.
\<close>

theorem rank_batches_equal_single_pass:
  fixes cols :: "'l columns"
  assumes "0 < rank_chunk_size" and "cols \<noteq> []"
  shows "rank_genes rank_chunk_size cols = Inr (rank_single_pass cols)
    \<and> rank_genes_2a cols = Inr (rank_single_pass cols)
    \<and> (\<forall>j<length cols. rank_single_pass cols ! j = (fst (cols ! j), rank_column (snd (cols ! j))))"
proof -
  have "rank_genes rank_chunk_size cols = Inr (rank_single_pass cols)"
    using assms rank_chunks_single_pass[of "nat rank_chunk_size" cols]
    by (simp add: rank_genes_def)
  moreover have "rank_genes_2a cols = Inr (rank_single_pass cols)"
    using assms(2) rank_chunks_single_pass[of CHUNK_SIZE cols]
    by (simp add: rank_genes_2a_def CHUNK_SIZE_def)
  moreover have "\<forall>j<length cols. rank_single_pass cols ! j = (fst (cols ! j), rank_column (snd (cols ! j)))"
    by (simp add: rank_single_pass_def rank_frame_def split_beta)
  ultimately show ?thesis by blast
qed

theorem rank_batches_equal_single_pass_witness:
  "(0::int) < 2 \<and> [(10::nat, [Some 1, None :: cell]), (11, [Some 2, Some 3]), (12, [None, Some 0])] \<noteq> []
   \<and> rank_genes 2 [(10::nat, [Some 1, None]), (11, [Some 2, Some 3]), (12, [None, Some 0])]
      = Inr [(10, [1, 2]), (11, [2, 1]), (12, [2, 1])]"
proof -
  have a: "(0::int) < 2" by simp
  have b: "[(10::nat, [Some 1, None :: cell]), (11, [Some 2, Some 3]), (12, [None, Some 0])] \<noteq> []" by simp
  have c: "rank_single_pass [(10::nat, [Some 1, None]), (11, [Some 2, Some 3]), (12, [None, Some 0])]
      = [(10, [1, 2]), (11, [2, 1]), (12, [2, 1])]"
    by code_simp
  show ?thesis using rank_batches_equal_single_pass[OF a b] c by simp
qed

theorem rank_batches_empty_counterexample:
  "rank_genes 512 ([] :: nat columns) \<noteq> Inr (rank_single_pass [])
   \<and> rank_genes_2a ([] :: nat columns) \<noteq> Inr (rank_single_pass [])"
  by (simp add: rank_genes_def rank_genes_2a_def pd_concat_axis1_def rank_chunks.simps)

section \<open>Leave-one-out consensus\<close>

lemma sum_list_without:
  fixes f :: "nat \<Rightarrow> real"
  assumes "i < k"
  shows "sum_list (map f (filter (\<lambda>j. j \<noteq> i) [0..<k])) = sum_list (map f [0..<k]) - f i"
proof -
  have "sum_list (map f (filter (\<lambda>j. j \<noteq> i) [0..<k])) = (\<Sum>j\<in>{0..<k} - {i}. f j)"
  proof -
    have "set (filter (\<lambda>j. j \<noteq> i) [0..<k]) = {0..<k} - {i}" by auto
    moreover have "distinct (filter (\<lambda>j. j \<noteq> i) [0..<k])" by simp
    ultimately show ?thesis by (metis sum_list_distinct_conv_sum_set)
  qed
  moreover have "sum_list (map f [0..<k]) = (\<Sum>j\<in>{0..<k}. f j)"
    by (simp add: interv_sum_list_conv_sum_set_nat)
  moreover have "(\<Sum>j\<in>{0..<k}. f j) = f i + (\<Sum>j\<in>{0..<k} - {i}. f j)"
    using assms by (simp add: sum.remove)
  ultimately show ?thesis by simp
qed

lemma sum_list_columns:
  "sum_list (map (\<lambda>v. v ! g) vs) = sum_list (map (\<lambda>j. vs ! j ! g) [0..<length vs])"
proof -
  have "map (\<lambda>v. v ! g) vs = map (\<lambda>j. vs ! j ! g) [0..<length vs]"
    by (rule nth_equalityI) simp_all
  then show ?thesis by simp
qed

lemma peer_sum_vector_nth:
  assumes "i < length vs" "length (vs ! i) = n_genes" "g < n_genes"
  shows "peer_sum_vector (sum_axis1 n_genes vs) (vs ! i) ! g
       = sum_list (map (\<lambda>j. vs ! j ! g) (filter (\<lambda>j. j \<noteq> i) [0..<length vs]))"
  using assms sum_list_without[of i "length vs" "\<lambda>j. vs ! j ! g"]
  by (simp add: peer_sum_vector_def sum_axis1_def sum_list_columns)

lemma length_peer_sum_vector:
  "length v = n_genes \<Longrightarrow> length (peer_sum_vector (sum_axis1 n_genes vs) v) = n_genes"
  by (simp add: peer_sum_vector_def sum_axis1_def)

text \<open>
  Claim C2. For a replicate group \<open>vs\<close> of \<open>k \<ge> 2\<close> vectors over the same \<open>n_genes\<close> genes
  and every member \<open>i\<close>: the peer sum \<open>total_sum - vector_i\<close> is, gene by gene, the sum of the
  other members, and the peer consensus \<open>(total_sum - vector_i) / (k - 1)\<close> is the
  elementwise arithmetic mean of the other \<open>k - 1\<close> members (exact arithmetic).
\<close>

theorem leave_one_out_consensus:
  assumes "2 \<le> length vs" and "i < length vs" and "\<forall>v\<in>set vs. length v = n_genes"
  shows "peer_sum_vector (sum_axis1 n_genes vs) (vs ! i)
           = map (\<lambda>g. sum_list (map (\<lambda>j. vs ! j ! g) (filter (\<lambda>j. j \<noteq> i) [0..<length vs])))
               [0..<n_genes]
       \<and> peer_consensus (sum_axis1 n_genes vs) (vs ! i) (length vs) = mean_of_others n_genes vs i"
proof -
  have len: "length (vs ! i) = n_genes" using assms(2,3) by simp
  have a: "peer_sum_vector (sum_axis1 n_genes vs) (vs ! i)
           = map (\<lambda>g. sum_list (map (\<lambda>j. vs ! j ! g) (filter (\<lambda>j. j \<noteq> i) [0..<length vs])))
               [0..<n_genes]"
    by (rule nth_equalityI)
       (simp_all add: length_peer_sum_vector[OF len] peer_sum_vector_nth[OF assms(2) len])
  have "peer_consensus (sum_axis1 n_genes vs) (vs ! i) (length vs) = mean_of_others n_genes vs i"
    unfolding peer_consensus_def a mean_of_others_def by (simp add: comp_def)
  with a show ?thesis by simp
qed

theorem leave_one_out_consensus_witness:
  "2 \<le> length [[1, 2], [3, 5], [8, 11 :: real]] \<and> (1::nat) < length [[1, 2], [3, 5], [8, 11 :: real]]
   \<and> map length [[1, 2], [3, 5], [8, 11 :: real]] = [2, 2, 2]
   \<and> peer_consensus (sum_axis1 2 [[1, 2], [3, 5], [8, 11]]) ([[1, 2], [3, 5], [8, 11]] ! 1)
        (length [[1, 2], [3, 5], [8, 11 :: real]]) = [9 / 2, 13 / 2]"
proof -
  have a: "2 \<le> length [[1, 2], [3, 5], [8, 11 :: real]]" by simp
  have b: "(1::nat) < length [[1, 2], [3, 5], [8, 11 :: real]]" by simp
  have c: "\<forall>v\<in>set [[1, 2], [3, 5], [8, 11 :: real]]. length v = 2" by simp
  have d: "mean_of_others 2 [[1, 2], [3, 5], [8, 11]] 1 = [9 / 2, 13 / 2]" by code_simp
  have "peer_consensus (sum_axis1 2 [[1, 2], [3, 5], [8, 11]]) ([[1, 2], [3, 5], [8, 11]] ! 1)
        (length [[1, 2], [3, 5], [8, 11 :: real]]) = mean_of_others 2 [[1, 2], [3, 5], [8, 11]] 1"
    using leave_one_out_consensus[OF a b c] by (rule conjunct2)
  also note d
  finally show ?thesis using a b by simp
qed

section \<open>Filter thresholds\<close>

lemma count_valid_set_valid_mono:
  assumes "\<And>row. row \<in> set rows \<Longrightarrow> m1 row \<Longrightarrow> m2 row"
  shows "count_valid (set_valid m1 rows) \<le> count_valid (set_valid m2 rows)"
  using assms
  unfolding count_valid_def set_valid_def
  by (induction rows) (auto simp: add_mono)

lemma cell_lt_mono: "t1 \<le> t2 \<Longrightarrow> cell_lt c t1 \<Longrightarrow> cell_lt c t2"
  by (auto simp: cell_lt_def split: option.splits)

lemma cell_gt_antimono: "t1 \<le> t2 \<Longrightarrow> cell_gt c t2 \<Longrightarrow> cell_gt c t1"
  by (auto simp: cell_gt_def split: option.splits)

lemma apply_filters_pvalue:
  "rows \<noteq> [] \<Longrightarrow> apply_filters rows ''pvalue'' t
     = Inr (set_valid (\<lambda>row. cell_lt (p_value row) t \<and> cell_gt (r_value row) 0) rows)"
  by (simp add: apply_filters_def)

lemma apply_filters_rvalue:
  "rows \<noteq> [] \<Longrightarrow> apply_filters rows ''rvalue'' t
     = Inr (set_valid (\<lambda>row. cell_gt (r_value row) t) rows)"
  by (simp add: apply_filters_def)

lemma apply_filters_empty: "apply_filters [] mode t = Inl KeyError"
  by (simp add: apply_filters_def)

text \<open>
  Claim C6. With the rows (their \<open>r\<close> and \<open>p\<close>) fixed and \<open>t1 \<le> t2\<close>: in p-value mode the
  filter returns for both thresholds and marks at least as many rows valid with \<open>t2\<close> as
  with \<open>t1\<close>; in r-value mode it returns for both and marks at most as many with \<open>t2\<close> as
  with \<open>t1\<close>. Only on a frame without rows does the filter raise, for every threshold alike.
\<close>

theorem filter_threshold_monotone:
  assumes "t1 \<le> t2"
  shows "(case (apply_filters rows ''pvalue'' t1, apply_filters rows ''pvalue'' t2) of
            (Inr out1, Inr out2) \<Rightarrow> count_valid out1 \<le> count_valid out2
          | (Inl e1, Inl e2) \<Rightarrow> rows = []
          | _ \<Rightarrow> False)
       \<and> (case (apply_filters rows ''rvalue'' t1, apply_filters rows ''rvalue'' t2) of
            (Inr out1, Inr out2) \<Rightarrow> count_valid out2 \<le> count_valid out1
          | (Inl e1, Inl e2) \<Rightarrow> rows = []
          | _ \<Rightarrow> False)"
proof (cases "rows = []")
  case True
  then show ?thesis by (simp add: apply_filters_empty)
next
  case False
  have p: "count_valid (set_valid (\<lambda>row. cell_lt (p_value row) t1 \<and> cell_gt (r_value row) 0) rows)
         \<le> count_valid (set_valid (\<lambda>row. cell_lt (p_value row) t2 \<and> cell_gt (r_value row) 0) rows)"
    by (rule count_valid_set_valid_mono) (use assms cell_lt_mono in blast)
  have r: "count_valid (set_valid (\<lambda>row. cell_gt (r_value row) t2) rows)
         \<le> count_valid (set_valid (\<lambda>row. cell_gt (r_value row) t1) rows)"
    by (rule count_valid_set_valid_mono) (use assms cell_gt_antimono in blast)
  show ?thesis using False p r by (simp add: apply_filters_pvalue apply_filters_rvalue)
qed

theorem filter_threshold_monotone_witness:
  "(0.05::real) \<le> 0.5
   \<and> map_sum id count_valid (apply_filters [\<lparr>inst_id = ''1'', drug_name = ''x'', r_value = Some 0.9, p_value = Some 0.01, num_peers = 2\<rparr>,
      \<lparr>inst_id = ''2'', drug_name = ''x'', r_value = Some 0.3, p_value = Some 0.2, num_peers = 2\<rparr>,
      \<lparr>inst_id = ''3'', drug_name = ''x'', r_value = Some (- 0.5), p_value = Some 0.01, num_peers = 2\<rparr>,
      \<lparr>inst_id = ''4'', drug_name = ''y'', r_value = None, p_value = None, num_peers = 0\<rparr>] ''pvalue'' 0.05) = Inr 1
   \<and> map_sum id count_valid (apply_filters [\<lparr>inst_id = ''1'', drug_name = ''x'', r_value = Some 0.9, p_value = Some 0.01, num_peers = 2\<rparr>,
      \<lparr>inst_id = ''2'', drug_name = ''x'', r_value = Some 0.3, p_value = Some 0.2, num_peers = 2\<rparr>,
      \<lparr>inst_id = ''3'', drug_name = ''x'', r_value = Some (- 0.5), p_value = Some 0.01, num_peers = 2\<rparr>,
      \<lparr>inst_id = ''4'', drug_name = ''y'', r_value = None, p_value = None, num_peers = 0\<rparr>] ''pvalue'' 0.5) = Inr 2
   \<and> map_sum id count_valid (apply_filters [\<lparr>inst_id = ''1'', drug_name = ''x'', r_value = Some 0.9, p_value = Some 0.01, num_peers = 2\<rparr>,
      \<lparr>inst_id = ''2'', drug_name = ''x'', r_value = Some 0.3, p_value = Some 0.2, num_peers = 2\<rparr>,
      \<lparr>inst_id = ''3'', drug_name = ''x'', r_value = Some (- 0.5), p_value = Some 0.01, num_peers = 2\<rparr>,
      \<lparr>inst_id = ''4'', drug_name = ''y'', r_value = None, p_value = None, num_peers = 0\<rparr>] ''rvalue'' 0.05) = Inr 2
   \<and> map_sum id count_valid (apply_filters [\<lparr>inst_id = ''1'', drug_name = ''x'', r_value = Some 0.9, p_value = Some 0.01, num_peers = 2\<rparr>,
      \<lparr>inst_id = ''2'', drug_name = ''x'', r_value = Some 0.3, p_value = Some 0.2, num_peers = 2\<rparr>,
      \<lparr>inst_id = ''3'', drug_name = ''x'', r_value = Some (- 0.5), p_value = Some 0.01, num_peers = 2\<rparr>,
      \<lparr>inst_id = ''4'', drug_name = ''y'', r_value = None, p_value = None, num_peers = 0\<rparr>] ''rvalue'' 0.5) = Inr 1"
proof -
  have h: "(0.05::real) \<le> 0.5" by simp
  have a: "map_sum id count_valid (apply_filters [\<lparr>inst_id = ''1'', drug_name = ''x'', r_value = Some 0.9, p_value = Some 0.01, num_peers = 2\<rparr>,
      \<lparr>inst_id = ''2'', drug_name = ''x'', r_value = Some 0.3, p_value = Some 0.2, num_peers = 2\<rparr>,
      \<lparr>inst_id = ''3'', drug_name = ''x'', r_value = Some (- 0.5), p_value = Some 0.01, num_peers = 2\<rparr>,
      \<lparr>inst_id = ''4'', drug_name = ''y'', r_value = None, p_value = None, num_peers = 0\<rparr>] ''pvalue'' 0.05) = Inr 1"
    by code_simp
  have b: "map_sum id count_valid (apply_filters [\<lparr>inst_id = ''1'', drug_name = ''x'', r_value = Some 0.9, p_value = Some 0.01, num_peers = 2\<rparr>,
      \<lparr>inst_id = ''2'', drug_name = ''x'', r_value = Some 0.3, p_value = Some 0.2, num_peers = 2\<rparr>,
      \<lparr>inst_id = ''3'', drug_name = ''x'', r_value = Some (- 0.5), p_value = Some 0.01, num_peers = 2\<rparr>,
      \<lparr>inst_id = ''4'', drug_name = ''y'', r_value = None, p_value = None, num_peers = 0\<rparr>] ''pvalue'' 0.5) = Inr 2"
    by code_simp
  have c: "map_sum id count_valid (apply_filters [\<lparr>inst_id = ''1'', drug_name = ''x'', r_value = Some 0.9, p_value = Some 0.01, num_peers = 2\<rparr>,
      \<lparr>inst_id = ''2'', drug_name = ''x'', r_value = Some 0.3, p_value = Some 0.2, num_peers = 2\<rparr>,
      \<lparr>inst_id = ''3'', drug_name = ''x'', r_value = Some (- 0.5), p_value = Some 0.01, num_peers = 2\<rparr>,
      \<lparr>inst_id = ''4'', drug_name = ''y'', r_value = None, p_value = None, num_peers = 0\<rparr>] ''rvalue'' 0.05) = Inr 2"
    by code_simp
  have d: "map_sum id count_valid (apply_filters [\<lparr>inst_id = ''1'', drug_name = ''x'', r_value = Some 0.9, p_value = Some 0.01, num_peers = 2\<rparr>,
      \<lparr>inst_id = ''2'', drug_name = ''x'', r_value = Some 0.3, p_value = Some 0.2, num_peers = 2\<rparr>,
      \<lparr>inst_id = ''3'', drug_name = ''x'', r_value = Some (- 0.5), p_value = Some 0.01, num_peers = 2\<rparr>,
      \<lparr>inst_id = ''4'', drug_name = ''y'', r_value = None, p_value = None, num_peers = 0\<rparr>] ''rvalue'' 0.5) = Inr 1"
    by code_simp
  show ?thesis
    using filter_threshold_monotone[OF h, of "[\<lparr>inst_id = ''1'', drug_name = ''x'', r_value = Some 0.9, p_value = Some 0.01, num_peers = 2\<rparr>,
      \<lparr>inst_id = ''2'', drug_name = ''x'', r_value = Some 0.3, p_value = Some 0.2, num_peers = 2\<rparr>,
      \<lparr>inst_id = ''3'', drug_name = ''x'', r_value = Some (- 0.5), p_value = Some 0.01, num_peers = 2\<rparr>,
      \<lparr>inst_id = ''4'', drug_name = ''y'', r_value = None, p_value = None, num_peers = 0\<rparr>]"] a b c d h by blast
qed

section \<open>Replicate groups and their records\<close>

lemma group_results_drug_name:
  "row \<in> set (group_results pearsonr sig d ids) \<Longrightarrow> drug_name row = d"
  by (auto simp: group_results_def Let_def split: if_splits)

lemma calculate_raw_stats_iff:
  "row \<in> set (calculate_raw_stats pearsonr sig meta)
     \<longleftrightarrow> (\<exists>d\<in>set (group_names meta). row \<in> set (group_results pearsonr sig d (group_instance_ids meta d)))"
  by (auto simp: calculate_raw_stats_def)

lemma calculate_raw_stats_group:
  assumes "d \<in> set (group_names meta)"
  shows "{row \<in> set (calculate_raw_stats pearsonr sig meta). drug_name row = d}
       = set (group_results pearsonr sig d (group_instance_ids meta d))"
  using assms by (auto simp: calculate_raw_stats_iff dest: group_results_drug_name)

lemma group_results_unscored:
  assumes "length (filter (in_columns sig) ids) \<le> 1"
  shows "group_results pearsonr sig d ids
       = map (\<lambda>inst. \<lparr>inst_id = inst, drug_name = d, r_value = None, p_value = None, num_peers = 0\<rparr>) ids"
  using assms by (simp add: group_results_def Let_def)

lemma fst_loo_score: "\<exists>r. fst (loo_score pearsonr x y) = Some r"
  by (simp add: loo_score_def split: pearson_result.splits option.splits)

lemma group_results_scored:
  assumes "\<not> length (filter (in_columns sig) ids) \<le> 1" "row \<in> set (group_results pearsonr sig d ids)"
  shows "r_value row \<noteq> None \<and> num_peers row = length (filter (in_columns sig) ids) - 1"
  using assms by (auto simp: group_results_def Let_def fst_loo_score)

lemma group_instance_ids_nonempty:
  assumes "d \<in> set (group_names meta)"
  shows "group_instance_ids meta d \<noteq> []"
proof -
  from assms obtain i where "(i, Some d) \<in> set meta"
    by (auto simp: group_names_def split: option.splits)
  then have "i \<in> set (group_instance_ids meta d)"
    by (force simp: group_instance_ids_def)
  then show ?thesis by auto
qed

lemma group_results_nonempty:
  assumes "ids \<noteq> []"
  shows "group_results pearsonr sig d ids \<noteq> []"
proof (cases "length (filter (in_columns sig) ids) \<le> 1")
  case True
  then show ?thesis using assms by (simp add: group_results_unscored)
next
  case False
  then have "filter (in_columns sig) ids \<noteq> []" by auto
  with False show ?thesis by (simp add: group_results_def Let_def)
qed

lemma calculate_raw_stats_nonempty:
  assumes "d \<in> set (group_names meta)"
  shows "calculate_raw_stats pearsonr sig meta \<noteq> []"
proof -
  obtain row where "row \<in> set (group_results pearsonr sig d (group_instance_ids meta d))"
    using group_results_nonempty[OF group_instance_ids_nonempty[OF assms]]
    by (meson last_in_set)
  then have "row \<in> set (calculate_raw_stats pearsonr sig meta)"
    using assms calculate_raw_stats_iff by blast
  then show ?thesis by auto
qed

lemma set_valid_nan_row:
  assumes "v \<in> set (set_valid m rows)" "r_value v = None"
  shows "valid v = 0"
  using assms by (auto simp: set_valid_def)

lemma set_valid_rows: "map result_row.truncate (set_valid m rows) = rows"
  by (induction rows) (simp_all add: set_valid_def result_row.truncate_def)

lemma apply_filters_Inr:
  assumes "apply_filters rows mode t = Inr out"
  shows "\<exists>m. out = set_valid m rows"
  using assms
  by (auto simp: apply_filters_def Let_def split: if_splits sum.splits)

lemma np_nanpercentile_returns:
  "0 \<le> q \<Longrightarrow> q \<le> 100 \<Longrightarrow> \<exists>c. np_nanpercentile a q = Inr c"
  by (simp add: np_nanpercentile_def Let_def)

lemma apply_filters_percentile_returns:
  assumes "rows \<noteq> []" "0 \<le> t" "t \<le> 100"
  shows "\<exists>out. apply_filters rows ''percentile'' t = Inr out"
proof -
  obtain c where "np_nanpercentile (map r_value (filter (\<lambda>row. r_value row \<noteq> None) rows)) (100 - t) = Inr c"
    using np_nanpercentile_returns[of "100 - t"] assms(2,3) by auto
  then show ?thesis using assms(1) by (simp add: apply_filters_def Let_def)
qed

text \<open>
  Claim C7. For a replicate group \<open>d\<close> with at most one instance in the signature matrix
  (a singleton group in particular): every instance of the group is recorded with NaN \<open>r\<close>,
  NaN \<open>p\<close> and zero peers, and the group has no other record; whenever the filter returns,
  for every mode string and every threshold, it returns the same records with
  \<open>valid = 0\<close> on those of the group; and it does return for every threshold in p-value and
  r-value mode and for every percent between 0 and 100 in percentile mode.
\<close>

theorem singleton_groups_invalid:
  assumes "d \<in> set (group_names meta)"
    and "length (filter (in_columns sig) (group_instance_ids meta d)) \<le> 1"
  shows "(\<forall>inst\<in>set (group_instance_ids meta d).
            \<lparr>inst_id = inst, drug_name = d, r_value = None, p_value = None, num_peers = 0\<rparr>
              \<in> set (calculate_raw_stats pearsonr sig meta))
       \<and> (\<forall>row\<in>set (calculate_raw_stats pearsonr sig meta). drug_name row = d \<longrightarrow>
            r_value row = None \<and> p_value row = None \<and> num_peers row = 0)
       \<and> (\<forall>mode threshold out.
            apply_filters (calculate_raw_stats pearsonr sig meta) mode threshold = Inr out \<longrightarrow>
              map result_row.truncate out = calculate_raw_stats pearsonr sig meta
              \<and> (\<forall>v\<in>set out. drug_name v = d \<longrightarrow> valid v = 0))
       \<and> (\<forall>threshold.
            (\<exists>out. apply_filters (calculate_raw_stats pearsonr sig meta) ''pvalue'' threshold = Inr out)
            \<and> (\<exists>out. apply_filters (calculate_raw_stats pearsonr sig meta) ''rvalue'' threshold = Inr out)
            \<and> (0 \<le> threshold \<and> threshold \<le> 100 \<longrightarrow>
                 (\<exists>out. apply_filters (calculate_raw_stats pearsonr sig meta) ''percentile'' threshold = Inr out)))"
proof -
  let ?res = "calculate_raw_stats pearsonr sig meta"
  let ?grp = "group_results pearsonr sig d (group_instance_ids meta d)"
  have grp: "?grp = map (\<lambda>inst. \<lparr>inst_id = inst, drug_name = d, r_value = None, p_value = None,
                 num_peers = 0\<rparr>) (group_instance_ids meta d)"
    by (rule group_results_unscored[OF assms(2)])
  have a: "\<forall>inst\<in>set (group_instance_ids meta d).
            \<lparr>inst_id = inst, drug_name = d, r_value = None, p_value = None, num_peers = 0\<rparr> \<in> set ?res"
  proof
    fix inst assume "inst \<in> set (group_instance_ids meta d)"
    then have "\<lparr>inst_id = inst, drug_name = d, r_value = None, p_value = None, num_peers = 0\<rparr> \<in> set ?grp"
      unfolding grp by simp
    then show "\<lparr>inst_id = inst, drug_name = d, r_value = None, p_value = None, num_peers = 0\<rparr> \<in> set ?res"
      using assms(1) calculate_raw_stats_iff by blast
  qed
  have b: "\<forall>row\<in>set ?res. drug_name row = d \<longrightarrow>
            r_value row = None \<and> p_value row = None \<and> num_peers row = 0"
  proof (intro ballI impI)
    fix row assume "row \<in> set ?res" "drug_name row = d"
    then have "row \<in> set ?grp" using calculate_raw_stats_group[OF assms(1)] by blast
    then show "r_value row = None \<and> p_value row = None \<and> num_peers row = 0"
      unfolding grp by auto
  qed
  have c: "\<forall>mode threshold out. apply_filters ?res mode threshold = Inr out \<longrightarrow>
              map result_row.truncate out = ?res \<and> (\<forall>v\<in>set out. drug_name v = d \<longrightarrow> valid v = 0)"
  proof (intro allI impI)
    fix mode threshold out
    assume "apply_filters ?res mode threshold = Inr out"
    then obtain m where out: "out = set_valid m ?res" using apply_filters_Inr by blast
    have "valid v = 0" if "v \<in> set out" "drug_name v = d" for v
    proof -
      from that(1) out obtain row where row: "row \<in> set ?res" "drug_name v = drug_name row" "r_value v = r_value row"
        by (auto simp: set_valid_def)
      with that(2) b have "r_value v = None" by simp
      with that(1) out show ?thesis using set_valid_nan_row by blast
    qed
    then show "map result_row.truncate out = ?res \<and> (\<forall>v\<in>set out. drug_name v = d \<longrightarrow> valid v = 0)"
      using out set_valid_rows by blast
  qed
  have ne: "?res \<noteq> []" by (rule calculate_raw_stats_nonempty[OF assms(1)])
  have e: "\<forall>threshold.
            (\<exists>out. apply_filters ?res ''pvalue'' threshold = Inr out)
            \<and> (\<exists>out. apply_filters ?res ''rvalue'' threshold = Inr out)
            \<and> (0 \<le> threshold \<and> threshold \<le> 100 \<longrightarrow>
                 (\<exists>out. apply_filters ?res ''percentile'' threshold = Inr out))"
    using ne apply_filters_percentile_returns[OF ne]
    by (simp add: apply_filters_pvalue apply_filters_rvalue)
  from a b c e show ?thesis by blast
qed


theorem singleton_groups_invalid_witness:
  "''ab'' \<in> set (group_names [(''a'', Some ''zz''), (''b'', None), (''c'', Some ''ab''), (''d'', Some ''zz'')])
   \<and> length (filter (in_columns \<lparr>sig_index = [1, 2], sig_columns = [(''a'', [1, 2]), (''d'', [1, 2]), (''c'', [3, 4])]\<rparr>) (group_instance_ids [(''a'', Some ''zz''), (''b'', None), (''c'', Some ''ab''), (''d'', Some ''zz'')] ''ab'')) \<le> 1
   \<and> \<lparr>inst_id = ''c'', drug_name = ''ab'', r_value = None, p_value = None, num_peers = 0\<rparr>
       \<in> set (calculate_raw_stats (\<lambda>x y. if x = y then PearsonResult (Some 1) (Some 0) else PearsonResult (Some (- 1)) (Some (1 / 2))) \<lparr>sig_index = [1, 2], sig_columns = [(''a'', [1, 2]), (''d'', [1, 2]), (''c'', [3, 4])]\<rparr> [(''a'', Some ''zz''), (''b'', None), (''c'', Some ''ab''), (''d'', Some ''zz'')])
   \<and> map_sum id (map (\<lambda>v. (inst_id v, valid v)))
        (apply_filters (calculate_raw_stats (\<lambda>x y. if x = y then PearsonResult (Some 1) (Some 0) else PearsonResult (Some (- 1)) (Some (1 / 2))) \<lparr>sig_index = [1, 2], sig_columns = [(''a'', [1, 2]), (''d'', [1, 2]), (''c'', [3, 4])]\<rparr> [(''a'', Some ''zz''), (''b'', None), (''c'', Some ''ab''), (''d'', Some ''zz'')]) ''rvalue'' (1 / 5))
       = Inr [(''c'', 0), (''a'', 1), (''d'', 1)]"
proof -
  have h1: "''ab'' \<in> set (group_names [(''a'', Some ''zz''), (''b'', None), (''c'', Some ''ab''), (''d'', Some ''zz'')])"
    by code_simp
  have h2: "length (filter (in_columns \<lparr>sig_index = [1, 2], sig_columns = [(''a'', [1, 2]), (''d'', [1, 2]), (''c'', [3, 4])]\<rparr>) (group_instance_ids [(''a'', Some ''zz''), (''b'', None), (''c'', Some ''ab''), (''d'', Some ''zz'')] ''ab'')) \<le> 1"
    by code_simp
  have m: "''c'' \<in> set (group_instance_ids [(''a'', Some ''zz''), (''b'', None), (''c'', Some ''ab''), (''d'', Some ''zz'')] ''ab'')"
    by code_simp
  have e: "map_sum id (map (\<lambda>v. (inst_id v, valid v)))
        (apply_filters (calculate_raw_stats (\<lambda>x y. if x = y then PearsonResult (Some 1) (Some 0) else PearsonResult (Some (- 1)) (Some (1 / 2))) \<lparr>sig_index = [1, 2], sig_columns = [(''a'', [1, 2]), (''d'', [1, 2]), (''c'', [3, 4])]\<rparr> [(''a'', Some ''zz''), (''b'', None), (''c'', Some ''ab''), (''d'', Some ''zz'')]) ''rvalue'' (1 / 5))
       = Inr [(''c'', 0), (''a'', 1), (''d'', 1)]"
    by code_simp
  have "\<forall>inst\<in>set (group_instance_ids [(''a'', Some ''zz''), (''b'', None), (''c'', Some ''ab''), (''d'', Some ''zz'')] ''ab'').
          \<lparr>inst_id = inst, drug_name = ''ab'', r_value = None, p_value = None, num_peers = 0\<rparr>
            \<in> set (calculate_raw_stats (\<lambda>x y. if x = y then PearsonResult (Some 1) (Some 0) else PearsonResult (Some (- 1)) (Some (1 / 2))) \<lparr>sig_index = [1, 2], sig_columns = [(''a'', [1, 2]), (''d'', [1, 2]), (''c'', [3, 4])]\<rparr> [(''a'', Some ''zz''), (''b'', None), (''c'', Some ''ab''), (''d'', Some ''zz'')])"
    using singleton_groups_invalid[OF h1 h2, where pearsonr = "(\<lambda>x y. if x = y then PearsonResult (Some 1) (Some 0) else PearsonResult (Some (- 1)) (Some (1 / 2)))"] by (rule conjunct1)
  with m have "\<lparr>inst_id = ''c'', drug_name = ''ab'', r_value = None, p_value = None, num_peers = 0\<rparr>
       \<in> set (calculate_raw_stats (\<lambda>x y. if x = y then PearsonResult (Some 1) (Some 0) else PearsonResult (Some (- 1)) (Some (1 / 2))) \<lparr>sig_index = [1, 2], sig_columns = [(''a'', [1, 2]), (''d'', [1, 2]), (''c'', [3, 4])]\<rparr> [(''a'', Some ''zz''), (''b'', None), (''c'', Some ''ab''), (''d'', Some ''zz'')])"
    by blast
  with h1 h2 e show ?thesis by blast
qed

lemma peer_consensus_pair:
  assumes "length va = n" "length vb = n"
  shows "peer_consensus (sum_axis1 n [va, vb]) va (Suc (Suc 0)) = vb"
    and "peer_consensus (sum_axis1 n [va, vb]) vb (Suc (Suc 0)) = va"
  using assms
  by (auto intro!: nth_equalityI simp: peer_consensus_def peer_sum_vector_def sum_axis1_def)

lemma group_results_pair:
  assumes "filter (in_columns sig) ids = [a, b]"
    and "length (column_of sig a) = length (sig_index sig)"
    and "length (column_of sig b) = length (sig_index sig)"
  shows "group_results pearsonr sig d ids =
     [\<lparr>inst_id = a, drug_name = d,
        r_value = fst (loo_score pearsonr (column_of sig a) (column_of sig b)),
        p_value = snd (loo_score pearsonr (column_of sig a) (column_of sig b)), num_peers = 1\<rparr>,
      \<lparr>inst_id = b, drug_name = d,
        r_value = fst (loo_score pearsonr (column_of sig b) (column_of sig a)),
        p_value = snd (loo_score pearsonr (column_of sig b) (column_of sig a)), num_peers = 1\<rparr>]"
  using assms peer_consensus_pair[OF assms(2,3)]
  by (simp add: group_results_def Let_def)

lemma set_valid_member:
  assumes "row \<in> set rows"
  shows "\<lparr>inst_id = inst_id row, drug_name = drug_name row, r_value = r_value row,
           p_value = p_value row, num_peers = num_peers row,
           valid = (if r_value row \<noteq> None \<and> m row then 1 else 0)\<rparr> \<in> set (set_valid m rows)"
  using assms by (force simp: set_valid_def)

text \<open>
  Claim C10. For a replicate group \<open>d\<close> of which exactly two instances \<open>a\<close>, \<open>b\<close> are columns
  of the signature matrix: the group's records are one for \<open>a\<close> and one for \<open>b\<close>, each with
  peer count 1 and with \<open>r\<close>, \<open>p\<close> scored against the other instance's vector (the peer
  consensus is that vector), \<open>r\<close> never NaN; both records are in the result; each is marked
  \<open>valid = 1\<close> by the p-value filter when its scores pass (\<open>p < t\<close> and \<open>r > 0\<close>); and in every
  group a record has NaN \<open>r\<close> exactly when at most one instance of the group is in the matrix.
\<close>

theorem two_instance_group_scored:
  assumes d: "d \<in> set (group_names meta)"
    and two: "filter (in_columns sig) (group_instance_ids meta d) = [a, b]"
    and ab: "a \<noteq> b"
    and la: "length (column_of sig a) = length (sig_index sig)"
    and lb: "length (column_of sig b) = length (sig_index sig)"
  shows "group_results pearsonr sig d (group_instance_ids meta d) =
           [\<lparr>inst_id = a, drug_name = d,
              r_value = fst (loo_score pearsonr (column_of sig a) (column_of sig b)),
              p_value = snd (loo_score pearsonr (column_of sig a) (column_of sig b)), num_peers = 1\<rparr>,
            \<lparr>inst_id = b, drug_name = d,
              r_value = fst (loo_score pearsonr (column_of sig b) (column_of sig a)),
              p_value = snd (loo_score pearsonr (column_of sig b) (column_of sig a)), num_peers = 1\<rparr>]
       \<and> set (group_results pearsonr sig d (group_instance_ids meta d))
            \<subseteq> set (calculate_raw_stats pearsonr sig meta)
       \<and> fst (loo_score pearsonr (column_of sig a) (column_of sig b)) \<noteq> None
       \<and> fst (loo_score pearsonr (column_of sig b) (column_of sig a)) \<noteq> None
       \<and> (\<forall>r p t. pearsonr (column_of sig a) (column_of sig b) = PearsonResult (Some r) (Some p)
              \<and> 0 < r \<and> p < t \<longrightarrow>
            (\<exists>out. apply_filters (calculate_raw_stats pearsonr sig meta) ''pvalue'' t = Inr out
              \<and> \<lparr>inst_id = a, drug_name = d, r_value = Some r, p_value = Some p, num_peers = 1,
                   valid = 1\<rparr> \<in> set out))
       \<and> (\<forall>r p t. pearsonr (column_of sig b) (column_of sig a) = PearsonResult (Some r) (Some p)
              \<and> 0 < r \<and> p < t \<longrightarrow>
            (\<exists>out. apply_filters (calculate_raw_stats pearsonr sig meta) ''pvalue'' t = Inr out
              \<and> \<lparr>inst_id = b, drug_name = d, r_value = Some r, p_value = Some p, num_peers = 1,
                   valid = 1\<rparr> \<in> set out))
       \<and> (\<forall>g\<in>set (group_names meta).
            \<forall>row\<in>set (group_results pearsonr sig g (group_instance_ids meta g)).
              (r_value row = None) = (length (filter (in_columns sig) (group_instance_ids meta g)) \<le> 1))"
proof -
  let ?res = "calculate_raw_stats pearsonr sig meta"
  let ?grp = "group_results pearsonr sig d (group_instance_ids meta d)"
  have c1: "?grp =
           [\<lparr>inst_id = a, drug_name = d,
              r_value = fst (loo_score pearsonr (column_of sig a) (column_of sig b)),
              p_value = snd (loo_score pearsonr (column_of sig a) (column_of sig b)), num_peers = 1\<rparr>,
            \<lparr>inst_id = b, drug_name = d,
              r_value = fst (loo_score pearsonr (column_of sig b) (column_of sig a)),
              p_value = snd (loo_score pearsonr (column_of sig b) (column_of sig a)), num_peers = 1\<rparr>]"
    by (rule group_results_pair[OF two la lb])
  have c2: "set ?grp \<subseteq> set ?res"
    using d calculate_raw_stats_iff by blast
  have c3: "fst (loo_score pearsonr x y) \<noteq> None" for x y
    using fst_loo_score[of pearsonr x y] by auto
  have ne: "?res \<noteq> []" by (rule calculate_raw_stats_nonempty[OF d])
  have elig: "\<exists>out. apply_filters ?res ''pvalue'' t = Inr out
              \<and> \<lparr>inst_id = i, drug_name = d, r_value = Some r, p_value = Some p, num_peers = 1,
                   valid = 1\<rparr> \<in> set out"
    if row: "\<lparr>inst_id = i, drug_name = d, r_value = Some r, p_value = Some p, num_peers = 1\<rparr> \<in> set ?res"
      and pass: "0 < r" "p < t" for i r p t
  proof -
    let ?m = "\<lambda>row. cell_lt (p_value row) t \<and> cell_gt (r_value row) 0"
    have "apply_filters ?res ''pvalue'' t = Inr (set_valid ?m ?res)"
      by (rule apply_filters_pvalue[OF ne])
    moreover have "\<lparr>inst_id = i, drug_name = d, r_value = Some r, p_value = Some p, num_peers = 1,
                   valid = 1\<rparr> \<in> set (set_valid ?m ?res)"
      using set_valid_member[OF row, of ?m] pass by (simp add: cell_lt_def cell_gt_def)
    ultimately show ?thesis by blast
  qed
  have c5: "\<forall>r p t. pearsonr (column_of sig a) (column_of sig b) = PearsonResult (Some r) (Some p)
              \<and> 0 < r \<and> p < t \<longrightarrow>
            (\<exists>out. apply_filters ?res ''pvalue'' t = Inr out
              \<and> \<lparr>inst_id = a, drug_name = d, r_value = Some r, p_value = Some p, num_peers = 1,
                   valid = 1\<rparr> \<in> set out)"
  proof (intro allI impI)
    fix r p t
    assume h: "pearsonr (column_of sig a) (column_of sig b) = PearsonResult (Some r) (Some p)
              \<and> 0 < r \<and> p < t"
    then have "loo_score pearsonr (column_of sig a) (column_of sig b) = (Some r, Some p)"
      by (simp add: loo_score_def)
    then have "\<lparr>inst_id = a, drug_name = d, r_value = Some r, p_value = Some p, num_peers = 1\<rparr> \<in> set ?grp"
      unfolding c1 by simp
    with c2 have "\<lparr>inst_id = a, drug_name = d, r_value = Some r, p_value = Some p, num_peers = 1\<rparr> \<in> set ?res"
      by blast
    then show "\<exists>out. apply_filters ?res ''pvalue'' t = Inr out
              \<and> \<lparr>inst_id = a, drug_name = d, r_value = Some r, p_value = Some p, num_peers = 1,
                   valid = 1\<rparr> \<in> set out"
      using elig h by blast
  qed
  have c6: "\<forall>r p t. pearsonr (column_of sig b) (column_of sig a) = PearsonResult (Some r) (Some p)
              \<and> 0 < r \<and> p < t \<longrightarrow>
            (\<exists>out. apply_filters ?res ''pvalue'' t = Inr out
              \<and> \<lparr>inst_id = b, drug_name = d, r_value = Some r, p_value = Some p, num_peers = 1,
                   valid = 1\<rparr> \<in> set out)"
  proof (intro allI impI)
    fix r p t
    assume h: "pearsonr (column_of sig b) (column_of sig a) = PearsonResult (Some r) (Some p)
              \<and> 0 < r \<and> p < t"
    then have "loo_score pearsonr (column_of sig b) (column_of sig a) = (Some r, Some p)"
      by (simp add: loo_score_def)
    then have "\<lparr>inst_id = b, drug_name = d, r_value = Some r, p_value = Some p, num_peers = 1\<rparr> \<in> set ?grp"
      unfolding c1 by simp
    with c2 have "\<lparr>inst_id = b, drug_name = d, r_value = Some r, p_value = Some p, num_peers = 1\<rparr> \<in> set ?res"
      by blast
    then show "\<exists>out. apply_filters ?res ''pvalue'' t = Inr out
              \<and> \<lparr>inst_id = b, drug_name = d, r_value = Some r, p_value = Some p, num_peers = 1,
                   valid = 1\<rparr> \<in> set out"
      using elig h by blast
  qed
  have c7: "\<forall>g\<in>set (group_names meta).
            \<forall>row\<in>set (group_results pearsonr sig g (group_instance_ids meta g)).
              (r_value row = None) = (length (filter (in_columns sig) (group_instance_ids meta g)) \<le> 1)"
  proof (intro ballI)
    fix g row
    assume row: "row \<in> set (group_results pearsonr sig g (group_instance_ids meta g))"
    show "(r_value row = None) = (length (filter (in_columns sig) (group_instance_ids meta g)) \<le> 1)"
    proof (cases "length (filter (in_columns sig) (group_instance_ids meta g)) \<le> 1")
      case True
      then show ?thesis using row by (auto simp: group_results_unscored)
    next
      case False
      then show ?thesis using group_results_scored[OF False row] by simp
    qed
  qed
  from c1 c2 c3 c5 c6 c7 show ?thesis by blast
qed

theorem two_instance_group_scored_witness:
  "''zz'' \<in> set (group_names [(''a'', Some ''zz''), (''b'', None), (''c'', Some ''ab''), (''d'', Some ''zz'')])
   \<and> filter (in_columns \<lparr>sig_index = [1, 2], sig_columns = [(''a'', [1, 2]), (''d'', [1, 2]), (''c'', [3, 4])]\<rparr>) (group_instance_ids [(''a'', Some ''zz''), (''b'', None), (''c'', Some ''ab''), (''d'', Some ''zz'')] ''zz'') = [''a'', ''d'']
   \<and> ''a'' \<noteq> ''d''
   \<and> length (column_of \<lparr>sig_index = [1, 2], sig_columns = [(''a'', [1, 2]), (''d'', [1, 2]), (''c'', [3, 4])]\<rparr> ''a'') = length (sig_index \<lparr>sig_index = [1, 2], sig_columns = [(''a'', [1, 2]), (''d'', [1, 2]), (''c'', [3, 4])]\<rparr>)
   \<and> length (column_of \<lparr>sig_index = [1, 2], sig_columns = [(''a'', [1, 2]), (''d'', [1, 2]), (''c'', [3, 4])]\<rparr> ''d'') = length (sig_index \<lparr>sig_index = [1, 2], sig_columns = [(''a'', [1, 2]), (''d'', [1, 2]), (''c'', [3, 4])]\<rparr>)
   \<and> group_results (\<lambda>x y. if x = y then PearsonResult (Some 1) (Some 0) else PearsonResult (Some (- 1)) (Some (1 / 2))) \<lparr>sig_index = [1, 2], sig_columns = [(''a'', [1, 2]), (''d'', [1, 2]), (''c'', [3, 4])]\<rparr> ''zz'' (group_instance_ids [(''a'', Some ''zz''), (''b'', None), (''c'', Some ''ab''), (''d'', Some ''zz'')] ''zz'') =
        [\<lparr>inst_id = ''a'', drug_name = ''zz'', r_value = Some 1, p_value = Some 0, num_peers = 1\<rparr>,
         \<lparr>inst_id = ''d'', drug_name = ''zz'', r_value = Some 1, p_value = Some 0, num_peers = 1\<rparr>]"
proof -
  have h1: "''zz'' \<in> set (group_names [(''a'', Some ''zz''), (''b'', None), (''c'', Some ''ab''), (''d'', Some ''zz'')])"
    by code_simp
  have h2: "filter (in_columns \<lparr>sig_index = [1, 2], sig_columns = [(''a'', [1, 2]), (''d'', [1, 2]), (''c'', [3, 4])]\<rparr>) (group_instance_ids [(''a'', Some ''zz''), (''b'', None), (''c'', Some ''ab''), (''d'', Some ''zz'')] ''zz'') = [''a'', ''d'']"
    by code_simp
  have h3: "''a'' \<noteq> ''d''" by simp
  have h4: "length (column_of \<lparr>sig_index = [1, 2], sig_columns = [(''a'', [1, 2]), (''d'', [1, 2]), (''c'', [3, 4])]\<rparr> ''a'') = length (sig_index \<lparr>sig_index = [1, 2], sig_columns = [(''a'', [1, 2]), (''d'', [1, 2]), (''c'', [3, 4])]\<rparr>)"
    by code_simp
  have h5: "length (column_of \<lparr>sig_index = [1, 2], sig_columns = [(''a'', [1, 2]), (''d'', [1, 2]), (''c'', [3, 4])]\<rparr> ''d'') = length (sig_index \<lparr>sig_index = [1, 2], sig_columns = [(''a'', [1, 2]), (''d'', [1, 2]), (''c'', [3, 4])]\<rparr>)"
    by code_simp
  have s1: "loo_score (\<lambda>x y. if x = y then PearsonResult (Some 1) (Some 0) else PearsonResult (Some (- 1)) (Some (1 / 2))) (column_of \<lparr>sig_index = [1, 2], sig_columns = [(''a'', [1, 2]), (''d'', [1, 2]), (''c'', [3, 4])]\<rparr> ''a'') (column_of \<lparr>sig_index = [1, 2], sig_columns = [(''a'', [1, 2]), (''d'', [1, 2]), (''c'', [3, 4])]\<rparr> ''d'') = (Some 1, Some 0)"
    by code_simp
  have s2: "loo_score (\<lambda>x y. if x = y then PearsonResult (Some 1) (Some 0) else PearsonResult (Some (- 1)) (Some (1 / 2))) (column_of \<lparr>sig_index = [1, 2], sig_columns = [(''a'', [1, 2]), (''d'', [1, 2]), (''c'', [3, 4])]\<rparr> ''d'') (column_of \<lparr>sig_index = [1, 2], sig_columns = [(''a'', [1, 2]), (''d'', [1, 2]), (''c'', [3, 4])]\<rparr> ''a'') = (Some 1, Some 0)"
    by code_simp
  have "group_results (\<lambda>x y. if x = y then PearsonResult (Some 1) (Some 0) else PearsonResult (Some (- 1)) (Some (1 / 2))) \<lparr>sig_index = [1, 2], sig_columns = [(''a'', [1, 2]), (''d'', [1, 2]), (''c'', [3, 4])]\<rparr> ''zz'' (group_instance_ids [(''a'', Some ''zz''), (''b'', None), (''c'', Some ''ab''), (''d'', Some ''zz'')] ''zz'') =
           [\<lparr>inst_id = ''a'', drug_name = ''zz'',
              r_value = fst (loo_score (\<lambda>x y. if x = y then PearsonResult (Some 1) (Some 0) else PearsonResult (Some (- 1)) (Some (1 / 2))) (column_of \<lparr>sig_index = [1, 2], sig_columns = [(''a'', [1, 2]), (''d'', [1, 2]), (''c'', [3, 4])]\<rparr> ''a'') (column_of \<lparr>sig_index = [1, 2], sig_columns = [(''a'', [1, 2]), (''d'', [1, 2]), (''c'', [3, 4])]\<rparr> ''d'')),
              p_value = snd (loo_score (\<lambda>x y. if x = y then PearsonResult (Some 1) (Some 0) else PearsonResult (Some (- 1)) (Some (1 / 2))) (column_of \<lparr>sig_index = [1, 2], sig_columns = [(''a'', [1, 2]), (''d'', [1, 2]), (''c'', [3, 4])]\<rparr> ''a'') (column_of \<lparr>sig_index = [1, 2], sig_columns = [(''a'', [1, 2]), (''d'', [1, 2]), (''c'', [3, 4])]\<rparr> ''d'')), num_peers = 1\<rparr>,
            \<lparr>inst_id = ''d'', drug_name = ''zz'',
              r_value = fst (loo_score (\<lambda>x y. if x = y then PearsonResult (Some 1) (Some 0) else PearsonResult (Some (- 1)) (Some (1 / 2))) (column_of \<lparr>sig_index = [1, 2], sig_columns = [(''a'', [1, 2]), (''d'', [1, 2]), (''c'', [3, 4])]\<rparr> ''d'') (column_of \<lparr>sig_index = [1, 2], sig_columns = [(''a'', [1, 2]), (''d'', [1, 2]), (''c'', [3, 4])]\<rparr> ''a'')),
              p_value = snd (loo_score (\<lambda>x y. if x = y then PearsonResult (Some 1) (Some 0) else PearsonResult (Some (- 1)) (Some (1 / 2))) (column_of \<lparr>sig_index = [1, 2], sig_columns = [(''a'', [1, 2]), (''d'', [1, 2]), (''c'', [3, 4])]\<rparr> ''d'') (column_of \<lparr>sig_index = [1, 2], sig_columns = [(''a'', [1, 2]), (''d'', [1, 2]), (''c'', [3, 4])]\<rparr> ''a'')), num_peers = 1\<rparr>]"
    using two_instance_group_scored[OF h1 h2 h3 h4 h5, where pearsonr = "(\<lambda>x y. if x = y then PearsonResult (Some 1) (Some 0) else PearsonResult (Some (- 1)) (Some (1 / 2)))"] by (rule conjunct1)
  then have "group_results (\<lambda>x y. if x = y then PearsonResult (Some 1) (Some 0) else PearsonResult (Some (- 1)) (Some (1 / 2))) \<lparr>sig_index = [1, 2], sig_columns = [(''a'', [1, 2]), (''d'', [1, 2]), (''c'', [3, 4])]\<rparr> ''zz'' (group_instance_ids [(''a'', Some ''zz''), (''b'', None), (''c'', Some ''ab''), (''d'', Some ''zz'')] ''zz'') =
        [\<lparr>inst_id = ''a'', drug_name = ''zz'', r_value = Some 1, p_value = Some 0, num_peers = 1\<rparr>,
         \<lparr>inst_id = ''d'', drug_name = ''zz'', r_value = Some 1, p_value = Some 0, num_peers = 1\<rparr>]"
    unfolding s1 s2 by simp
  with h1 h2 h3 h4 h5 show ?thesis by blast
qed

section \<open>Column selection\<close>

lemma argsort_perm_inverse:
  assumes "mset ord = mset [0..<m]"
  shows "map (\<lambda>i. ord ! i) (np_argsort (map int ord)) = [0..<m]"
proof -
  have len: "length ord = m" using assms by (metis length_upt mset_eq_length minus_nat.diff_0)
  let ?u = "np_argsort (map int ord)"
  have setu: "set ?u = {0..<m}" by (simp add: np_argsort_def len)
  have "sorted (map (\<lambda>i. map int ord ! i) ?u)"
    unfolding np_argsort_def by (rule sorted_sort_key)
  moreover have "map (\<lambda>i. map int ord ! i) ?u = map int (map (\<lambda>i. ord ! i) ?u)"
    using setu len by auto
  ultimately have "sorted (map int (map (\<lambda>i. ord ! i) ?u))" by simp
  then have s: "sorted (map (\<lambda>i. ord ! i) ?u)"
    by (simp add: sorted_map)
  have "mset (map (\<lambda>i. ord ! i) ?u) = image_mset (\<lambda>i. ord ! i) (mset [0..<m])"
    by (simp add: np_argsort_def len)
  also have "\<dots> = mset (map (\<lambda>i. ord ! i) [0..<length ord])"
    using len by simp
  also have "\<dots> = mset ord" by (simp add: map_nth)
  finally have "mset (map (\<lambda>i. ord ! i) ?u) = mset [0..<m]" using assms by simp
  then have "sort [0..<m] = map (\<lambda>i. ord ! i) ?u"
    using s by (metis properties_for_sort)
  then show ?thesis by (simp add: sorted_sort_id)
qed

lemma length_np_argsort: "length (np_argsort a) = length a"
  by (simp add: np_argsort_def)

lemma set_np_argsort: "set (np_argsort a) = {0..<length a}"
  by (simp add: np_argsort_def)

lemma mset_np_argsort: "mset (np_argsort a) = mset [0..<length a]"
  by (simp add: np_argsort_def)

lemma unsort_columns_take:
  assumes perm: "mset col_order = mset [0..<length cols]"
  shows "unsort_columns n block cols col_order = np_take_axis1 n block cols"
proof -
  let ?m = "length cols"
  let ?sorted = "fancy_index cols col_order"
  let ?u = "np_argsort (map int col_order)"
  have len: "length col_order = ?m" using perm by (metis length_upt mset_eq_length minus_nat.diff_0)
  have setord: "set col_order = {0..<?m}" using perm by (metis set_mset_mset set_upt)
  have lens: "length ?sorted = ?m" by (simp add: fancy_index_def len)
  have setsorted: "set ?sorted = set cols"
  proof -
    have "set ?sorted = (\<lambda>i. cols ! i) ` {0..<?m}" by (simp add: fancy_index_def setord)
    also have "\<dots> = set cols" by (auto simp: in_set_conv_nth)
    finally show ?thesis .
  qed
  have inv: "map (\<lambda>i. col_order ! i) ?u = [0..<?m]" by (rule argsort_perm_inverse[OF perm])
  have lenu: "length ?u = ?m" by (simp add: length_np_argsort len)
  have setu: "set ?u = {0..<?m}" by (simp add: set_np_argsort len)
  have inv_nth: "col_order ! (?u ! i) = i" if "i < ?m" for i
  proof -
    have "map (\<lambda>i. col_order ! i) ?u ! i = [0..<?m] ! i" by (simp only: inv)
    then show ?thesis using that lenu by simp
  qed
  have inrange_u: "list_all (\<lambda>j. - int (length ?sorted) \<le> j \<and> j < int (length ?sorted)) (map int ?u)"
    by (auto simp: list_all_iff lens setu)
  have same: "map (\<lambda>j. ?sorted ! nat (if j < 0 then j + int (length ?sorted) else j)) (map int ?u) = cols"
  proof (rule nth_equalityI)
    show "length (map (\<lambda>j. ?sorted ! nat (if j < 0 then j + int (length ?sorted) else j)) (map int ?u)) = length cols"
      by (simp add: lenu)
  next
    fix i assume "i < length (map (\<lambda>j. ?sorted ! nat (if j < 0 then j + int (length ?sorted) else j)) (map int ?u))"
    then have i: "i < ?m" by (simp add: lenu)
    then have ui: "?u ! i < ?m" using setu lenu by (metis atLeastLessThan_iff nth_mem)
    show "map (\<lambda>j. ?sorted ! nat (if j < 0 then j + int (length ?sorted) else j)) (map int ?u) ! i = cols ! i"
      using i ui lenu len inv_nth[OF i] by (simp add: fancy_index_def)
  qed
  show ?thesis
  proof (cases "list_all (\<lambda>j. - int n \<le> j \<and> j < int n) cols")
    case False
    then have "\<not> list_all (\<lambda>j. - int n \<le> j \<and> j < int n) ?sorted"
      by (simp add: list_all_iff setsorted)
    with False show ?thesis
      by (simp add: unsort_columns_def np_take_axis1_def Let_def)
  next
    case True
    then have ts: "list_all (\<lambda>j. - int n \<le> j \<and> j < int n) ?sorted"
      by (simp add: list_all_iff setsorted)
    let ?f = "\<lambda>j. nat (if j < 0 then j + int n else j)"
    have row: "map (\<lambda>j. map (\<lambda>j. row ! ?f j) ?sorted ! nat (if j < 0 then j + int (length ?sorted) else j)) (map int ?u)
             = map (\<lambda>j. row ! ?f j) cols" for row :: "'a list"
    proof -
      have "map (\<lambda>j. map (\<lambda>j. row ! ?f j) ?sorted ! nat (if j < 0 then j + int (length ?sorted) else j)) (map int ?u)
          = map (\<lambda>j. row ! ?f j) (map (\<lambda>j. ?sorted ! nat (if j < 0 then j + int (length ?sorted) else j)) (map int ?u))"
        using setu by (auto simp: lens)
      then show ?thesis by (simp only: same)
    qed
    have "unsort_columns n block cols col_order
        = np_take_axis1 (length ?sorted) (map (\<lambda>row. map (\<lambda>j. row ! ?f j) ?sorted) block) (map int ?u)"
      using ts by (simp add: unsort_columns_def np_take_axis1_def Let_def)
    also have "\<dots> = Inr (map (\<lambda>row. map (\<lambda>j. map (\<lambda>j. row ! ?f j) ?sorted ! nat (if j < 0 then j + int (length ?sorted) else j)) (map int ?u)) block)"
      using inrange_u by (simp add: np_take_axis1_def comp_def)
    also have "\<dots> = Inr (map (\<lambda>row. map (\<lambda>j. row ! ?f j) cols) block)"
      by (simp only: row)
    also have "\<dots> = np_take_axis1 n block cols"
      using True by (simp add: np_take_axis1_def)
    finally show ?thesis .
  qed
qed

text \<open>
  Claim C9. For every column-index list \<open>cols\<close> and every block: reading the columns
  \<open>cols[order]\<close> and permuting the result by \<open>argsort(order)\<close> gives exactly the selection
  of the columns \<open>cols\<close> in the caller's order, for \<open>order = argsort(cols)\<close> and for every
  other permutation \<open>order\<close> of the positions of \<open>cols\<close> (so for whichever order argsort
  gives to equal indices); the columns read are in ascending order; and when every index
  is a column of the block the result holds, row by row, the cells at \<open>cols\<close> in that order.
  An index outside the block raises IndexError in the scheme as in the direct selection.
\<close>

theorem sorted_read_then_unsort:
  "(\<forall>col_order. mset col_order = mset [0..<length cols] \<longrightarrow>
      unsort_columns n_cols block cols col_order = np_take_axis1 n_cols block cols)
   \<and> select_columns n_cols block cols = np_take_axis1 n_cols block cols
   \<and> sorted (fancy_index cols (np_argsort cols))
   \<and> (list_all (\<lambda>j. 0 \<le> j \<and> j < int n_cols) cols \<longrightarrow>
        select_columns n_cols block cols = Inr (map (\<lambda>row. map (\<lambda>j. row ! nat j) cols) block))"
proof -
  have a: "\<forall>col_order. mset col_order = mset [0..<length cols] \<longrightarrow>
      unsort_columns n_cols block cols col_order = np_take_axis1 n_cols block cols"
    using unsort_columns_take by blast
  have b: "select_columns n_cols block cols = np_take_axis1 n_cols block cols"
    unfolding select_columns_def by (rule unsort_columns_take[OF mset_np_argsort])
  have c: "sorted (fancy_index cols (np_argsort cols))"
    unfolding fancy_index_def np_argsort_def by (rule sorted_sort_key)
  have d: "select_columns n_cols block cols = Inr (map (\<lambda>row. map (\<lambda>j. row ! nat j) cols) block)"
    if h: "list_all (\<lambda>j. 0 \<le> j \<and> j < int n_cols) cols"
  proof -
    have "list_all (\<lambda>j. - int n_cols \<le> j \<and> j < int n_cols) cols"
      using h by (auto simp: list_all_iff)
    moreover have "map (\<lambda>j. row ! nat (if j < 0 then j + int n_cols else j)) cols
                 = map (\<lambda>j. row ! nat j) cols" for row :: "'a list"
      using h by (auto simp: list_all_iff)
    ultimately show ?thesis unfolding b by (simp add: np_take_axis1_def)
  qed
  from a b c d show ?thesis by blast
qed

theorem sorted_read_then_unsort_witness:
  "list_all (\<lambda>j. 0 \<le> j \<and> j < int 4) [2, 0, 3, 2]
   \<and> select_columns 4 [[10, 11, 12, 13 :: nat], [20, 21, 22, 23]] [2, 0, 3, 2]
       = Inr [[12, 10, 13, 12], [22, 20, 23, 22]]"
proof -
  have h: "list_all (\<lambda>j. 0 \<le> j \<and> j < int 4) [2, 0, 3, 2]" by simp
  have "select_columns 4 [[10, 11, 12, 13 :: nat], [20, 21, 22, 23]] [2, 0, 3, 2]
      = Inr (map (\<lambda>row. map (\<lambda>j. row ! nat j) [2, 0, 3, 2]) [[10, 11, 12, 13 :: nat], [20, 21, 22, 23]])"
    using sorted_read_then_unsort[of "[2, 0, 3, 2]" 4 "[[10, 11, 12, 13 :: nat], [20, 21, 22, 23]]"] h
    by blast
  also have "\<dots> = Inr [[12, 10, 13, 12], [22, 20, 23, 22]]" by simp
  finally show ?thesis using h by blast
qed

section \<open>Collapsing the rows of one canonical id\<close>

lemma keys_groupby_mean: "map fst (groupby_mean n rows) = sort (remdups (map fst rows))"
  by (simp add: groupby_mean_def comp_def)

lemma group_members_nonempty:
  assumes "k \<in> set (map fst rows)"
  shows "group_members k rows \<noteq> []"
proof -
  from assms obtain cells where "(k, cells) \<in> set rows" by auto
  then have "cells \<in> set (group_members k rows)" by (force simp: group_members_def)
  then show ?thesis by auto
qed

lemma groupby_mean_row:
  assumes "(k, cells) \<in> set (groupby_mean n rows)"
  shows "k \<in> set (map fst rows)"
    and "cells = map (\<lambda>j. nanmean (map (\<lambda>c. c ! j) (group_members k rows))) [0..<n]"
  using assms by (auto simp: groupby_mean_def)

lemma nanmean_all_numbers:
  assumes "None \<notin> set cells" "cells \<noteq> []"
  shows "nanmean cells = Some (sum_list (map the cells) / real (length cells))"
proof -
  have "concat (map (\<lambda>c. case c of None \<Rightarrow> [] | Some v \<Rightarrow> [v]) cells) = map the cells"
    using assms(1)
  proof (induction cells)
    case Nil
    then show ?case by simp
  next
    case (Cons a cells)
    then obtain v where "a = Some v" by (cases a) auto
    with Cons show ?case by simp
  qed
  then show ?thesis using assms(2) by (simp add: nanmean_def)
qed

lemma nanmean_mean_all:
  assumes "None \<notin> set cells" "cells \<noteq> []"
  shows "nanmean cells = mean_all cells"
  using assms by (simp add: nanmean_all_numbers mean_all_def)

text \<open>
  Claim C3. The collapse returns one row per distinct canonical id (ids ascending, no id
  twice, the ids of the input). Each cell of the row of id \<open>k\<close> is the arithmetic mean of
  the values that the rows of \<open>k\<close> have in that experiment column, missing values left out,
  and NaN when all are missing. Where no row of \<open>k\<close> misses the value, the cell is the sum of
  all group members divided by their number; a frame without missing values is collapsed to
  the elementwise arithmetic mean of all group members. Symbols A and B mapped to the same
  id with vectors \<open>[1,2,3]\<close> and \<open>[3,4,5]\<close> give the row \<open>[2,3,4]\<close>.
\<close>

theorem collapse_rows_mean:
  "map fst (groupby_mean n rows) = sort (remdups (map fst rows))
   \<and> distinct (map fst (groupby_mean n rows))
   \<and> set (map fst (groupby_mean n rows)) = set (map fst rows)
   \<and> (\<forall>k cells. (k, cells) \<in> set (groupby_mean n rows) \<longrightarrow>
         length cells = n
         \<and> (\<forall>j<n. cells ! j = nanmean (map (\<lambda>c. c ! j) (group_members k rows))))
   \<and> (\<forall>k cells j. (k, cells) \<in> set (groupby_mean n rows) \<and> j < n
           \<and> (\<forall>c\<in>set (group_members k rows). c ! j \<noteq> None) \<longrightarrow>
         cells ! j = Some (sum_list (map (\<lambda>c. the (c ! j)) (group_members k rows))
                            / real (length (group_members k rows))))
   \<and> ((\<forall>(k, c)\<in>set rows. \<forall>j<n. c ! j \<noteq> None) \<longrightarrow> groupby_mean n rows = groupby_mean_all n rows)
   \<and> harmonize (gene_name_to_entrez [(Some ''A'', Num 7), (Some ''B'', Num 7)])
        \<lparr>frame_columns = [0, 1, 2],
         frame_rows = [(''A'', [Some 1, Some 2, Some 3]), (''B'', [Some 3, Some 4, Some 5])]\<rparr>
       = Inr \<lparr>frame_columns = [0, 1, 2], frame_rows = [(7, [Some 2, Some 3, Some 4])]\<rparr>"
proof -
  have c1: "map fst (groupby_mean n rows) = sort (remdups (map fst rows))"
    by (rule keys_groupby_mean)
  have c2: "distinct (map fst (groupby_mean n rows))"
    by (simp add: keys_groupby_mean)
  have c3: "set (map fst (groupby_mean n rows)) = set (map fst rows)"
    by (simp only: keys_groupby_mean set_sort set_remdups)
  have c4: "\<forall>k cells. (k, cells) \<in> set (groupby_mean n rows) \<longrightarrow>
         length cells = n
         \<and> (\<forall>j<n. cells ! j = nanmean (map (\<lambda>c. c ! j) (group_members k rows)))"
    using groupby_mean_row(2) by fastforce
  have c5: "\<forall>k cells j. (k, cells) \<in> set (groupby_mean n rows) \<and> j < n
           \<and> (\<forall>c\<in>set (group_members k rows). c ! j \<noteq> None) \<longrightarrow>
         cells ! j = Some (sum_list (map (\<lambda>c. the (c ! j)) (group_members k rows))
                            / real (length (group_members k rows)))"
  proof (intro allI impI)
    fix k cells j
    assume h: "(k, cells) \<in> set (groupby_mean n rows) \<and> j < n
           \<and> (\<forall>c\<in>set (group_members k rows). c ! j \<noteq> None)"
    then have ne: "group_members k rows \<noteq> []"
      using groupby_mean_row(1) group_members_nonempty by blast
    have "cells ! j = nanmean (map (\<lambda>c. c ! j) (group_members k rows))"
      using c4 h by blast
    moreover have "None \<notin> set (map (\<lambda>c. c ! j) (group_members k rows))"
      using h by force
    ultimately show "cells ! j = Some (sum_list (map (\<lambda>c. the (c ! j)) (group_members k rows))
                            / real (length (group_members k rows)))"
      using ne by (simp add: nanmean_all_numbers comp_def)
  qed
  have c6: "groupby_mean n rows = groupby_mean_all n rows"
    if full: "\<forall>(k, c)\<in>set rows. \<forall>j<n. c ! j \<noteq> None"
  proof -
    have "nanmean (map (\<lambda>c. c ! j) (group_members k rows)) = mean_all (map (\<lambda>c. c ! j) (group_members k rows))"
      if k: "k \<in> set (map fst rows)" and j: "j < n" for k j
    proof (rule nanmean_mean_all)
      show "map (\<lambda>c. c ! j) (group_members k rows) \<noteq> []"
        using group_members_nonempty[OF k] by simp
      show "None \<notin> set (map (\<lambda>c. c ! j) (group_members k rows))"
        using full j by (force simp: group_members_def)
    qed
    then show ?thesis
      unfolding groupby_mean_def groupby_mean_all_def by (auto intro!: map_cong)
  qed
  have c7: "harmonize (gene_name_to_entrez [(Some ''A'', Num 7), (Some ''B'', Num 7)])
        \<lparr>frame_columns = [0, 1, 2],
         frame_rows = [(''A'', [Some 1, Some 2, Some 3]), (''B'', [Some 3, Some 4, Some 5])]\<rparr>
       = Inr \<lparr>frame_columns = [0, 1, 2], frame_rows = [(7, [Some 2, Some 3, Some 4])]\<rparr>"
    by code_simp
  from c1 c2 c3 c4 c5 c6 c7 show ?thesis by blast
qed

theorem collapse_rows_mean_witness:
  "(7, [Some 2, Some 4]) \<in> set (groupby_mean 2 [(7, [Some 1, None]), (7, [Some 3, Some 4]), (9, [None, None])])
   \<and> [Some 2, Some 4] ! 0
      = Some (sum_list (map (\<lambda>c. the (c ! 0))
                (group_members 7 [(7, [Some 1, None]), (7, [Some 3, Some 4]), (9, [None, None])]))
              / real (length (group_members 7 [(7, [Some 1, None]), (7, [Some 3, Some 4]), (9, [None, None])])))
   \<and> groupby_mean 2 [(7, [Some 1, None]), (7, [Some 3, Some 4]), (9, [None, None])]
      = [(7, [Some 2, Some 4]), (9, [None, None])]"
proof -
  let ?rows = "[(7, [Some 1, None]), (7, [Some 3, Some 4]), (9, [None, None :: cell])] :: (int \<times> cell list) list"
  have e: "groupby_mean 2 ?rows = [(7, [Some 2, Some 4]), (9, [None, None])]"
    by code_simp
  have m: "(7, [Some 2, Some 4]) \<in> set (groupby_mean 2 ?rows)"
    unfolding e by simp
  have g: "group_members 7 ?rows = [[Some 1, None], [Some 3, Some 4]]"
    by code_simp
  have f: "\<forall>c\<in>set (group_members 7 ?rows). c ! 0 \<noteq> None"
    unfolding g by simp
  have pre: "(7, [Some 2, Some 4]) \<in> set (groupby_mean 2 ?rows) \<and> (0::nat) < 2
      \<and> (\<forall>c\<in>set (group_members 7 ?rows). c ! 0 \<noteq> None)"
  proof (intro conjI)
    show "(7, [Some 2, Some 4]) \<in> set (groupby_mean 2 ?rows)" by (rule m)
    show "(0::nat) < 2" by simp
    show "\<forall>c\<in>set (group_members 7 ?rows). c ! 0 \<noteq> None" by (rule f)
  qed
  have "[Some 2, Some 4 :: cell] ! 0
      = Some (sum_list (map (\<lambda>c. the (c ! 0)) (group_members 7 ?rows))
              / real (length (group_members 7 ?rows)))"
    by (rule collapse_rows_mean[of 2 ?rows, THEN conjunct2, THEN conjunct2, THEN conjunct2,
          THEN conjunct2, THEN conjunct1, rule_format, OF pre])
  with m e show ?thesis by blast
qed

theorem collapse_skips_missing_counterexample:
  "groupby_mean 2 [(7, [Some 1, None]), (7, [Some 3, Some 4])]
     \<noteq> groupby_mean_all 2 [(7, [Some 1, None]), (7, [Some 3, Some 4])]"
  by code_simp

section \<open>The shared id filter\<close>

lemma coerce_entrez_error: "coerce_entrez rows = Inl e \<Longrightarrow> e = TypeError"
  by (simp add: coerce_entrez_def split: if_splits)

lemma harmonize_2a_cases:
  "harmonize_2a gene_map shared_ids transposed = Inl TypeError
   \<or> (\<exists>rows. coerce_entrez (dropna_entrez (map_entrez gene_map (frame_rows transposed))) = Inr rows
        \<and> harmonize_2a gene_map shared_ids transposed
            = Inr \<lparr>frame_columns = frame_columns transposed,
                   frame_rows = filter (\<lambda>(k, cells). k \<in> shared_ids)
                                  (groupby_mean (length (frame_columns transposed)) rows)\<rparr>)"
  by (auto simp: harmonize_2a_def dest: coerce_entrez_error split: sum.splits)

lemma distinct_keys_groupby_mean: "distinct (map fst (groupby_mean n rows))"
  by (simp add: groupby_mean_def comp_def)

lemma harmonize_2a_subset:
  "case harmonize_2a gene_map shared_ids transposed of
     Inr out \<Rightarrow> set (map fst (frame_rows out)) \<subseteq> shared_ids
                \<and> distinct (map fst (frame_rows out))
   | Inl e \<Rightarrow> e = TypeError"
  using harmonize_2a_cases[of gene_map shared_ids transposed]
  by (auto simp: distinct_map_filter distinct_keys_groupby_mean)

text \<open>
  Claim C4. With a shared id set supplied, the harmonizer of filter_tahoe_part2_ranking.py
  filters the collapsed rows by membership in that set: whenever it returns, the ids of its
  output are pairwise different and form a subset of the shared set; otherwise it raises
  TypeError (an id that is not a whole number). The same holds for the script's step 3 with
  the shared set read from the shared-genes file. With the shared set \<open>{10, 20}\<close> a row whose
  symbol resolves to id 30 is not in the output.
\<close>

theorem shared_id_filter_subset:
  "(case harmonize_2a gene_map shared_ids transposed of
      Inr out \<Rightarrow> set (map fst (frame_rows out)) \<subseteq> shared_ids
                 \<and> distinct (map fst (frame_rows out))
    | Inl e \<Rightarrow> e = TypeError)
   \<and> (case part_2a_step_3 shared_genes_df transposed of
      Inr out \<Rightarrow> set (map fst (frame_rows out)) \<subseteq> shared_entrez_ids shared_genes_df
                 \<and> distinct (map fst (frame_rows out))
    | Inl e \<Rightarrow> e = TypeError)
   \<and> harmonize_2a (dict_zip [(Some ''A'', Num 10), (Some ''B'', Num 30), (Some ''C'', Num 20)]) {10, 20}
        \<lparr>frame_columns = [0], frame_rows = [(''B'', [Some 1]), (''C'', [Some 3]), (''A'', [Some 5])]\<rparr>
       = Inr \<lparr>frame_columns = [0], frame_rows = [(10, [Some 5]), (20, [Some 3])]\<rparr>"
proof -
  have a: "case harmonize_2a gene_map shared_ids transposed of
      Inr out \<Rightarrow> set (map fst (frame_rows out)) \<subseteq> shared_ids
                 \<and> distinct (map fst (frame_rows out))
    | Inl e \<Rightarrow> e = TypeError"
    by (rule harmonize_2a_subset)
  have b: "case part_2a_step_3 shared_genes_df transposed of
      Inr out \<Rightarrow> set (map fst (frame_rows out)) \<subseteq> shared_entrez_ids shared_genes_df
                 \<and> distinct (map fst (frame_rows out))
    | Inl e \<Rightarrow> e = TypeError"
    unfolding part_2a_step_3_def by (rule harmonize_2a_subset)
  have c: "harmonize_2a (dict_zip [(Some ''A'', Num 10), (Some ''B'', Num 30), (Some ''C'', Num 20)]) {10, 20}
        \<lparr>frame_columns = [0], frame_rows = [(''B'', [Some 1]), (''C'', [Some 3]), (''A'', [Some 5])]\<rparr>
       = Inr \<lparr>frame_columns = [0], frame_rows = [(10, [Some 5]), (20, [Some 3])]\<rparr>"
    by code_simp
  from a b c show ?thesis by blast
qed

theorem shared_id_filter_subset_witness:
  "part_2a_step_3 [(Some ''A'', Num 10), (Some ''B'', Text ''n/a''), (Some ''C'', Num 20), (Some ''D'', NaN_id)]
      \<lparr>frame_columns = [0, 1],
       frame_rows = [(''C'', [Some 1, None]), (''B'', [Some 3, Some 4]), (''A'', [Some 5, Some 6]),
                     (''E'', [Some 7, Some 8])]\<rparr>
     = Inr \<lparr>frame_columns = [0, 1], frame_rows = [(10, [Some 5, Some 6]), (20, [Some 1, None])]\<rparr>
   \<and> set (map fst [(10 :: int, [Some 5, Some 6 :: cell]), (20, [Some 1, None])])
       \<subseteq> shared_entrez_ids [(Some ''A'', Num 10), (Some ''B'', Text ''n/a''), (Some ''C'', Num 20), (Some ''D'', NaN_id)]"
proof -
  let ?tab = "[(Some ''A'', Num 10), (Some ''B'', Text ''n/a''), (Some ''C'', Num 20), (Some ''D'', NaN_id)]"
  let ?fr = "\<lparr>frame_columns = [0, 1],
       frame_rows = [(''C'', [Some 1, None]), (''B'', [Some 3, Some 4]), (''A'', [Some 5, Some 6]),
                     (''E'', [Some 7, Some 8])]\<rparr>"
  have e: "part_2a_step_3 ?tab ?fr
     = Inr \<lparr>frame_columns = [0, 1], frame_rows = [(10, [Some 5, Some 6]), (20, [Some 1, None])]\<rparr>"
    by code_simp
  have "case part_2a_step_3 ?tab ?fr of
      Inr out \<Rightarrow> set (map fst (frame_rows out)) \<subseteq> shared_entrez_ids ?tab
                 \<and> distinct (map fst (frame_rows out))
    | Inl e \<Rightarrow> e = TypeError"
    using shared_id_filter_subset[of _ _ ?fr ?tab] by blast
  then have "set (map fst [(10 :: int, [Some 5, Some 6 :: cell]), (20, [Some 1, None])])
       \<subseteq> shared_entrez_ids ?tab"
    unfolding e by simp
  with e show ?thesis by blast
qed

section \<open>The gene map\<close>

lemma dict_zip_fold:
  "fold (\<lambda>(k, v) m. m(k \<mapsto> v)) kvs m0 = m0 ++ map_of (rev kvs)"
proof (induction kvs arbitrary: m0)
  case Nil
  then show ?case by simp
next
  case (Cons kv kvs)
  obtain k v where kv: "kv = (k, v)" by (cases kv)
  have "fold (\<lambda>(k, v) m. m(k \<mapsto> v)) (kv # kvs) m0
      = fold (\<lambda>(k, v) m. m(k \<mapsto> v)) kvs (m0(k \<mapsto> v))"
    by (simp only: kv fold_simps case_prod_conv)
  also have "\<dots> = m0(k \<mapsto> v) ++ map_of (rev kvs)"
    by (rule Cons.IH)
  also have "\<dots> = m0 ++ map_of (rev kvs @ [(k, v)])"
    by (rule ext) (simp add: map_add_def split: option.splits)
  finally show ?case by (simp only: kv rev.simps)
qed

lemma dict_zip_last: "dict_zip kvs = map_of (rev kvs)"
  by (simp add: dict_zip_def dict_zip_fold)

lemma drop_duplicates_fst:
  "distinct (map fst (drop_duplicates fst seen rows))
   \<and> set (map fst (drop_duplicates fst seen rows)) \<inter> set seen = {}
   \<and> (\<forall>k. map_of (drop_duplicates fst seen rows) k = (if k \<in> set seen then None else map_of rows k))"
proof (induction rows arbitrary: seen)
  case Nil
  then show ?case by simp
next
  case (Cons row rows)
  obtain k v where row: "row = (k, v)" by (cases row)
  show ?case
  proof (cases "k \<in> set seen")
    case True
    then show ?thesis using Cons[of seen] row by auto
  next
    case False
    then show ?thesis using Cons[of "k # seen"] row by auto
  qed
qed

lemma gene_name_to_entrez_first:
  "gene_name_to_entrez gene_map = map_of (dropna_gene_map gene_map)"
proof -
  let ?d = "drop_duplicates fst [] (dropna_gene_map gene_map)"
  have "distinct (map fst ?d)" using drop_duplicates_fst[of "[]"] by blast
  then have "map_of (rev ?d) = map_of ?d"
    by (subst map_of_inject_set) (simp_all add: rev_map[symmetric])
  moreover have "map_of ?d = map_of (dropna_gene_map gene_map)"
    using drop_duplicates_fst[of "[]" "dropna_gene_map gene_map"] by auto
  ultimately show ?thesis by (simp add: gene_name_to_entrez_def dict_zip_last)
qed

text \<open>
  Claim C8. The mapping table \<open>(A, 10), (A, 20)\<close> names symbol A twice with different ids.
  extract_OG_tahoe_part_2_rank_and_save_parquet.py drops the second row before it builds
  the dictionary and resolves A to 10, the id of the first occurrence;
  filter_tahoe_part2_ranking.py builds the dictionary from all rows and resolves A to 20,
  the id of the last occurrence, and files the row of A under id 20.
\<close>

theorem gene_map_duplicate_symbol:
  "gene_name_to_entrez [(Some ''A'', Num 10), (Some ''A'', Num 20)] (Some ''A'') = Some (Num 10)
   \<and> gene_name_to_entrez_2a [(Some ''A'', Num 10), (Some ''A'', Num 20)] (Some ''A'') = Some (Num 20)
   \<and> part_2a_step_3 [(Some ''A'', Num 10), (Some ''A'', Num 20)]
        \<lparr>frame_columns = [0], frame_rows = [(''A'', [Some 1])]\<rparr>
       = Inr \<lparr>frame_columns = [0], frame_rows = [(20, [Some 1])]\<rparr>"
  by code_simp

section \<open>The ranked matrix of the whole script\<close>

text \<open>
  In the output of the whole script every ranked experiment column has one rank per
  retained canonical id, and the ranks are exactly \<open>1, \<dots>, G\<close> for \<open>G\<close> the number of ids.
\<close>

lemma length_columns_of:
  "(label, col) \<in> set (columns_of fr) \<Longrightarrow> length col = length (frame_rows fr)"
  by (auto simp: columns_of_def)

lemma rank_genes_columns:
  assumes "rank_genes rank_chunk_size cols = Inr ranked" "(label, ranks) \<in> set ranked"
  shows "\<exists>col. (label, col) \<in> set cols \<and> ranks = rank_column col"
proof -
  have pos: "0 < rank_chunk_size"
    using assms(1) by (auto simp: rank_genes_def pd_concat_axis1_def split: if_splits)
  have "ranked = concat (rank_chunks (nat rank_chunk_size) 0 cols)"
    using assms(1) pos by (auto simp: rank_genes_def pd_concat_axis1_def split: if_splits)
  then have "ranked = rank_frame cols"
    using pos concat_rank_chunks[of "nat rank_chunk_size" 0 cols] by simp
  then show ?thesis using assms(2) by (auto simp: rank_frame_def)
qed

lemma part_2_main_ranks:
  assumes "part_2_main gene_map rank_chunk_size transposed = Inr (ids, ranked_matrix)"
    and "(label, ranks) \<in> set ranked_matrix" and "length ids < 2 ^ 31"
  shows "length ranks = length ids \<and> set (map sint ranks) = {1 .. int (length ids)}"
proof -
  from assms(1) obtain collapsed where c: "harmonize (gene_name_to_entrez gene_map) transposed = Inr collapsed"
    and r: "rank_genes rank_chunk_size (columns_of collapsed) = Inr ranked_matrix"
    and i: "ids = map fst (frame_rows collapsed)"
    by (auto simp: part_2_main_def split: sum.splits)
  obtain col where col: "(label, col) \<in> set (columns_of collapsed)" "ranks = rank_column col"
    using rank_genes_columns[OF r assms(2)] by blast
  have len: "length col = length ids" using length_columns_of[OF col(1)] i by simp
  have "set (map sint (rank_column col)) = int ` {1..length col}"
    using assms(3) len by (simp add: rank_column_map set_rank_first)
  then show ?thesis
    using len col(2) by (simp add: rank_column_def length_rank_first image_int_atLeastAtMost)
qed

end
